theory Spec2Isabelle
  imports Main "HOL-Library.Sublist" "HOL-Library.Multiset"
begin

section \<open>Go strings and the functions of package strings the program calls\<close>

text \<open>
  A Go string is a sequence of bytes and \<open>len\<close> counts bytes, so a Go string is a
  \<open>string\<close> (a list of 8-bit characters) and \<open>len s\<close> is \<open>int (length s)\<close>.
  Go's \<open>int\<close> is 64 bits wide; the lengths and counters of this program stay far below
  that, so they are unbounded integers here.

  The functions of package \<open>strings\<close> are written out on bytes. \<open>ToUpper\<close> and
  \<open>TrimSpace\<close> are the ASCII rules of the library (the result Go computes for every
  string of ASCII bytes): the program uses them to compare PATHEXT extensions and to trim
  PATH entries, and never cuts a string at a length taken from their result. \<open>ToLower\<close>
  is the whole function, since the program does cut strings at lengths that are right only
  when lower-casing keeps the number of bytes. Every needle and separator the program passes
  (\<open>"%"\<close>, \<open>"~"\<close>, \<open>"\\"\<close>, \<open>";"\<close>, \<open>"'"\<close>) is a single byte, so
  \<open>Contains\<close>, \<open>Index\<close>, \<open>LastIndex\<close> and \<open>Split\<close> take that byte.
\<close>

definition lowerByte :: "char \<Rightarrow> char" where
  "lowerByte c =
     (if 65 \<le> (of_char c :: nat) \<and> (of_char c :: nat) \<le> 90
      then char_of ((of_char c :: nat) + 32) else c)"

definition upperByte :: "char \<Rightarrow> char" where
  "upperByte c =
     (if 97 \<le> (of_char c :: nat) \<and> (of_char c :: nat) \<le> 122
      then char_of ((of_char c :: nat) - 32) else c)"

subsection \<open>strings.ToLower\<close>

text \<open>
  \<open>strings.ToLower\<close> maps the bytes \<open>A\<close> to \<open>Z\<close> when the string is ASCII.
  Otherwise it is \<open>strings.Map(unicode.ToLower, s)\<close>: the string is read rune by rune as
  \<open>for _, c := range s\<close> reads it (\<open>utf8.DecodeRuneInString\<close>: a byte that does not
  begin a well-formed UTF-8 sequence is the rune \<open>U+FFFD\<close> of width 1), and the mapped
  runes are written in UTF-8 (\<open>utf8.AppendRune\<close>). The result can be shorter or longer
  than the string: \<open>U+0130\<close>, two bytes, becomes \<open>i\<close>.
\<close>

text \<open>A rune is Go's \<open>int32\<close>; the runes below stay under \<open>0x110000\<close> and are integers.\<close>

definition isASCII :: "string \<Rightarrow> bool" where
  "isASCII s = list_all (\<lambda>c. (of_char c :: nat) < 0x80) s"

definition between :: "int \<Rightarrow> char \<Rightarrow> int \<Rightarrow> bool" where
  "between lo c hi = (lo \<le> (of_char c :: int) \<and> (of_char c :: int) \<le> hi)"

definition contBits :: "char \<Rightarrow> int" where
  \<comment> \<open>the six payload bits of a continuation byte\<close>
  "contBits c = (of_char c :: int) mod 64"

definition decodeRune :: "string \<Rightarrow> int \<times> nat" where
  \<comment> \<open>the rune at the start of the string, and its width in bytes\<close>
  "decodeRune s =
     (case s of
        [] \<Rightarrow> (0xFFFD, 0)
      | b0 # t \<Rightarrow>
          (let x = (of_char b0 :: int)
           in if x < 0x80 then (x, 1)
              else if 0xC2 \<le> x \<and> x \<le> 0xDF then
                (case t of
                   b1 # _ \<Rightarrow>
                     if between 0x80 b1 0xBF then ((x mod 32) * 64 + contBits b1, 2)
                     else (0xFFFD, 1)
                 | _ \<Rightarrow> (0xFFFD, 1))
              else if 0xE0 \<le> x \<and> x \<le> 0xEF then
                (case t of
                   b1 # b2 # _ \<Rightarrow>
                     if between (if x = 0xE0 then 0xA0 else 0x80) b1 (if x = 0xED then 0x9F else 0xBF)
                        \<and> between 0x80 b2 0xBF
                     then ((x mod 16) * 4096 + contBits b1 * 64 + contBits b2, 3)
                     else (0xFFFD, 1)
                 | _ \<Rightarrow> (0xFFFD, 1))
              else if 0xF0 \<le> x \<and> x \<le> 0xF4 then
                (case t of
                   b1 # b2 # b3 # _ \<Rightarrow>
                     if between (if x = 0xF0 then 0x90 else 0x80) b1 (if x = 0xF4 then 0x8F else 0xBF)
                        \<and> between 0x80 b2 0xBF \<and> between 0x80 b3 0xBF
                     then ((x mod 8) * 262144 + contBits b1 * 4096 + contBits b2 * 64 + contBits b3, 4)
                     else (0xFFFD, 1)
                 | _ \<Rightarrow> (0xFFFD, 1))
              else (0xFFFD, 1)))"

fun decodeRunes :: "string \<Rightarrow> int list" where
  "decodeRunes [] = []"
| "decodeRunes (b # bs) =
     fst (decodeRune (b # bs)) # decodeRunes (drop (snd (decodeRune (b # bs)) - 1) bs)"

definition encodeRune :: "int \<Rightarrow> string" where
  "encodeRune r =
     (if r < 0x80 then [char_of r]
      else if r < 0x800 then [char_of (0xC0 + r div 64), char_of (0x80 + r mod 64)]
      else if (0xD800 \<le> r \<and> r \<le> 0xDFFF) \<or> 0x10FFFF < r then [CHR 0xEF, CHR 0xBF, CHR 0xBD]
      else if r < 0x10000
      then [char_of (0xE0 + r div 4096), char_of (0x80 + (r div 64) mod 64),
            char_of (0x80 + r mod 64)]
      else [char_of (0xF0 + r div 262144), char_of (0x80 + (r div 4096) mod 64),
            char_of (0x80 + (r div 64) mod 64), char_of (0x80 + r mod 64)])"

text \<open>
  \<open>unicode.ToLower\<close> looks the rune up in the case table of the library, which is
  generated from the simple lower-case mappings of the Unicode character database. The
  table below is that of Unicode 15.0 for the runes from \<open>U+0080\<close> on. An entry
  \<open>(lo, hi, stride, delta)\<close> says that the runes \<open>lo\<close>, \<open>lo + stride\<close>, ... up to
  \<open>hi\<close> map to themselves plus \<open>delta\<close>; a rune in no entry maps to itself.
\<close>

definition caseRangesLower :: "(int \<times> int \<times> int \<times> int) list" where
  "caseRangesLower =
     [(0xC0, 0xD6, 1, 32), (0xD8, 0xDE, 1, 32), (0x100, 0x12E, 2, 1), (0x130, 0x130, 1, -199),
      (0x132, 0x136, 2, 1), (0x139, 0x147, 2, 1), (0x14A, 0x176, 2, 1),
      (0x178, 0x178, 1, -121), (0x179, 0x17D, 2, 1), (0x181, 0x181, 1, 210),
      (0x182, 0x184, 2, 1), (0x186, 0x186, 1, 206), (0x187, 0x187, 1, 1),
      (0x189, 0x18A, 1, 205), (0x18B, 0x18B, 1, 1), (0x18E, 0x18E, 1, 79),
      (0x18F, 0x18F, 1, 202), (0x190, 0x190, 1, 203), (0x191, 0x191, 1, 1),
      (0x193, 0x193, 1, 205), (0x194, 0x194, 1, 207), (0x196, 0x196, 1, 211),
      (0x197, 0x197, 1, 209), (0x198, 0x198, 1, 1), (0x19C, 0x19C, 1, 211),
      (0x19D, 0x19D, 1, 213), (0x19F, 0x19F, 1, 214), (0x1A0, 0x1A4, 2, 1),
      (0x1A6, 0x1A6, 1, 218), (0x1A7, 0x1A7, 1, 1), (0x1A9, 0x1A9, 1, 218),
      (0x1AC, 0x1AC, 1, 1), (0x1AE, 0x1AE, 1, 218), (0x1AF, 0x1AF, 1, 1),
      (0x1B1, 0x1B2, 1, 217), (0x1B3, 0x1B5, 2, 1), (0x1B7, 0x1B7, 1, 219),
      (0x1B8, 0x1B8, 1, 1), (0x1BC, 0x1BC, 1, 1), (0x1C4, 0x1C4, 1, 2), (0x1C5, 0x1C5, 1, 1),
      (0x1C7, 0x1C7, 1, 2), (0x1C8, 0x1C8, 1, 1), (0x1CA, 0x1CA, 1, 2), (0x1CB, 0x1DB, 2, 1),
      (0x1DE, 0x1EE, 2, 1), (0x1F1, 0x1F1, 1, 2), (0x1F2, 0x1F4, 2, 1), (0x1F6, 0x1F6, 1, -97),
      (0x1F7, 0x1F7, 1, -56), (0x1F8, 0x21E, 2, 1), (0x220, 0x220, 1, -130),
      (0x222, 0x232, 2, 1), (0x23A, 0x23A, 1, 10795), (0x23B, 0x23B, 1, 1),
      (0x23D, 0x23D, 1, -163), (0x23E, 0x23E, 1, 10792), (0x241, 0x241, 1, 1),
      (0x243, 0x243, 1, -195), (0x244, 0x244, 1, 69), (0x245, 0x245, 1, 71),
      (0x246, 0x24E, 2, 1), (0x370, 0x372, 2, 1), (0x376, 0x376, 1, 1), (0x37F, 0x37F, 1, 116),
      (0x386, 0x386, 1, 38), (0x388, 0x38A, 1, 37), (0x38C, 0x38C, 1, 64),
      (0x38E, 0x38F, 1, 63), (0x391, 0x3A1, 1, 32), (0x3A3, 0x3AB, 1, 32),
      (0x3CF, 0x3CF, 1, 8), (0x3D8, 0x3EE, 2, 1), (0x3F4, 0x3F4, 1, -60), (0x3F7, 0x3F7, 1, 1),
      (0x3F9, 0x3F9, 1, -7), (0x3FA, 0x3FA, 1, 1), (0x3FD, 0x3FF, 1, -130),
      (0x400, 0x40F, 1, 80), (0x410, 0x42F, 1, 32), (0x460, 0x480, 2, 1), (0x48A, 0x4BE, 2, 1),
      (0x4C0, 0x4C0, 1, 15), (0x4C1, 0x4CD, 2, 1), (0x4D0, 0x52E, 2, 1), (0x531, 0x556, 1, 48),
      (0x10A0, 0x10C5, 1, 7264), (0x10C7, 0x10C7, 1, 7264), (0x10CD, 0x10CD, 1, 7264),
      (0x13A0, 0x13EF, 1, 38864), (0x13F0, 0x13F5, 1, 8), (0x1C90, 0x1CBA, 1, -3008),
      (0x1CBD, 0x1CBF, 1, -3008), (0x1E00, 0x1E94, 2, 1), (0x1E9E, 0x1E9E, 1, -7615),
      (0x1EA0, 0x1EFE, 2, 1), (0x1F08, 0x1F0F, 1, -8), (0x1F18, 0x1F1D, 1, -8),
      (0x1F28, 0x1F2F, 1, -8), (0x1F38, 0x1F3F, 1, -8), (0x1F48, 0x1F4D, 1, -8),
      (0x1F59, 0x1F5F, 2, -8), (0x1F68, 0x1F6F, 1, -8), (0x1F88, 0x1F8F, 1, -8),
      (0x1F98, 0x1F9F, 1, -8), (0x1FA8, 0x1FAF, 1, -8), (0x1FB8, 0x1FB9, 1, -8),
      (0x1FBA, 0x1FBB, 1, -74), (0x1FBC, 0x1FBC, 1, -9), (0x1FC8, 0x1FCB, 1, -86),
      (0x1FCC, 0x1FCC, 1, -9), (0x1FD8, 0x1FD9, 1, -8), (0x1FDA, 0x1FDB, 1, -100),
      (0x1FE8, 0x1FE9, 1, -8), (0x1FEA, 0x1FEB, 1, -112), (0x1FEC, 0x1FEC, 1, -7),
      (0x1FF8, 0x1FF9, 1, -128), (0x1FFA, 0x1FFB, 1, -126), (0x1FFC, 0x1FFC, 1, -9),
      (0x2126, 0x2126, 1, -7517), (0x212A, 0x212A, 1, -8383), (0x212B, 0x212B, 1, -8262),
      (0x2132, 0x2132, 1, 28), (0x2160, 0x216F, 1, 16), (0x2183, 0x2183, 1, 1),
      (0x24B6, 0x24CF, 1, 26), (0x2C00, 0x2C2F, 1, 48), (0x2C60, 0x2C60, 1, 1),
      (0x2C62, 0x2C62, 1, -10743), (0x2C63, 0x2C63, 1, -3814), (0x2C64, 0x2C64, 1, -10727),
      (0x2C67, 0x2C6B, 2, 1), (0x2C6D, 0x2C6D, 1, -10780), (0x2C6E, 0x2C6E, 1, -10749),
      (0x2C6F, 0x2C6F, 1, -10783), (0x2C70, 0x2C70, 1, -10782), (0x2C72, 0x2C72, 1, 1),
      (0x2C75, 0x2C75, 1, 1), (0x2C7E, 0x2C7F, 1, -10815), (0x2C80, 0x2CE2, 2, 1),
      (0x2CEB, 0x2CED, 2, 1), (0x2CF2, 0x2CF2, 1, 1), (0xA640, 0xA66C, 2, 1),
      (0xA680, 0xA69A, 2, 1), (0xA722, 0xA72E, 2, 1), (0xA732, 0xA76E, 2, 1),
      (0xA779, 0xA77B, 2, 1), (0xA77D, 0xA77D, 1, -35332), (0xA77E, 0xA786, 2, 1),
      (0xA78B, 0xA78B, 1, 1), (0xA78D, 0xA78D, 1, -42280), (0xA790, 0xA792, 2, 1),
      (0xA796, 0xA7A8, 2, 1), (0xA7AA, 0xA7AA, 1, -42308), (0xA7AB, 0xA7AB, 1, -42319),
      (0xA7AC, 0xA7AC, 1, -42315), (0xA7AD, 0xA7AD, 1, -42305), (0xA7AE, 0xA7AE, 1, -42308),
      (0xA7B0, 0xA7B0, 1, -42258), (0xA7B1, 0xA7B1, 1, -42282), (0xA7B2, 0xA7B2, 1, -42261),
      (0xA7B3, 0xA7B3, 1, 928), (0xA7B4, 0xA7C2, 2, 1), (0xA7C4, 0xA7C4, 1, -48),
      (0xA7C5, 0xA7C5, 1, -42307), (0xA7C6, 0xA7C6, 1, -35384), (0xA7C7, 0xA7C9, 2, 1),
      (0xA7D0, 0xA7D0, 1, 1), (0xA7D6, 0xA7D8, 2, 1), (0xA7F5, 0xA7F5, 1, 1),
      (0xFF21, 0xFF3A, 1, 32), (0x10400, 0x10427, 1, 40), (0x104B0, 0x104D3, 1, 40),
      (0x10570, 0x1057A, 1, 39), (0x1057C, 0x1058A, 1, 39), (0x1058C, 0x10592, 1, 39),
      (0x10594, 0x10595, 1, 39), (0x10C80, 0x10CB2, 1, 64), (0x118A0, 0x118BF, 1, 32),
      (0x16E40, 0x16E5F, 1, 32), (0x1E900, 0x1E921, 1, 34)]"

definition inCaseRange :: "int \<Rightarrow> int \<times> int \<times> int \<times> int \<Rightarrow> bool" where
  "inCaseRange r e = (case e of (lo, hi, stride, delta) \<Rightarrow> lo \<le> r \<and> r \<le> hi \<and> (r - lo) mod stride = 0)"

definition unicode_ToLower :: "int \<Rightarrow> int" where
  "unicode_ToLower r =
     (if r < 0x80 then (if 65 \<le> r \<and> r \<le> 90 then r + 32 else r)
      else (case find (inCaseRange r) caseRangesLower of
              None \<Rightarrow> r
            | Some (lo, hi, stride, delta) \<Rightarrow> r + delta))"

definition ToLower :: "string \<Rightarrow> string" where
  "ToLower s =
     (if isASCII s then map lowerByte s
      else concat (map (\<lambda>r. encodeRune (unicode_ToLower r)) (decodeRunes s)))"

definition ToUpper :: "string \<Rightarrow> string" where
  "ToUpper s = map upperByte s"

definition isSpace :: "char \<Rightarrow> bool" where
  \<comment> \<open>tab, line feed, vertical tab, form feed, carriage return, space\<close>
  "isSpace c = ((of_char c :: nat) \<in> set [9, 10, 11, 12, 13, 32])"

definition TrimSpace :: "string \<Rightarrow> string" where
  "TrimSpace s = rev (dropWhile isSpace (rev (dropWhile isSpace s)))"

definition TrimRight :: "string \<Rightarrow> string \<Rightarrow> string" where
  "TrimRight s cutset = rev (dropWhile (\<lambda>c. c \<in> set cutset) (rev s))"

definition Contains :: "string \<Rightarrow> char \<Rightarrow> bool" where
  "Contains s c = (c \<in> set s)"

definition Index :: "string \<Rightarrow> char \<Rightarrow> nat option" where
  \<comment> \<open>\<open>None\<close> is Go's \<open>-1\<close>\<close>
  "Index s c = (if c \<in> set s then Some (length (takeWhile (\<lambda>x. x \<noteq> c) s)) else None)"

definition LastIndex :: "string \<Rightarrow> char \<Rightarrow> nat option" where
  "LastIndex s c =
     (if c \<in> set s then Some (length s - 1 - length (takeWhile (\<lambda>x. x \<noteq> c) (rev s)))
      else None)"

definition HasPrefix :: "string \<Rightarrow> string \<Rightarrow> bool" where
  "HasPrefix s p = (take (length p) s = p)"

fun Split :: "string \<Rightarrow> char \<Rightarrow> string list" where
  "Split [] sep = [[]]"
| "Split (x # xs) sep =
     (if x = sep then [] # Split xs sep
      else (case Split xs sep of [] \<Rightarrow> [[x]] | y # ys \<Rightarrow> (x # y) # ys))"

fun Join :: "string list \<Rightarrow> string \<Rightarrow> string" where
  "Join [] sep = []"
| "Join [x] sep = x"
| "Join (x # y # ys) sep = x @ sep @ Join (y # ys) sep"

definition ReplaceAll :: "string \<Rightarrow> char \<Rightarrow> string \<Rightarrow> string" where
  "ReplaceAll s old new = concat (map (\<lambda>c. if c = old then new else [c]) s)"

text \<open>
  The slice expressions \<open>s[n:]\<close> and \<open>s[:n]\<close>. Go panics when \<open>n\<close> is larger than
  \<open>len(s)\<close>; \<open>None\<close> is that panic.
\<close>

definition sliceFrom :: "string \<Rightarrow> nat \<Rightarrow> string option" where
  "sliceFrom s n = (if n \<le> length s then Some (drop n s) else None)"

definition sliceTo :: "string \<Rightarrow> nat \<Rightarrow> string option" where
  "sliceTo s n = (if n \<le> length s then Some (take n s) else None)"

text \<open>
  Isabelle's string literals cannot hold a backslash. \<open>bslash\<close> is that byte, and
  \<open>win\<close> turns the literal \<open>''C:|Windows''\<close> into the Go string \<open>C:\Windows\<close>
  (a \<open>|\<close> stands for a backslash; no path of this development contains a real one).
\<close>

abbreviation bslash :: char where
  "bslash \<equiv> CHR 0x5C"

definition win :: "string \<Rightarrow> string" where
  "win s = map (\<lambda>c. if c = CHR ''|'' then bslash else c) s"

section \<open>The outside world\<close>

text \<open>
  The program reaches the operating system through four doors: the PowerShell runner
  (\<open>RunPowerShell\<close>, that is \<open>DefaultRunner.Run\<close>), \<open>os.Stat\<close>, the process
  environment (\<open>os.Environ\<close> and \<open>os.Getenv\<close>) and the files under the configuration
  directory. A \<open>world\<close> fixes what each of them answers.

  The runner receives the text of a PowerShell script. The scripts of the source are fixed
  texts with at most two holes, so a command is the name of its script together with what
  fills the holes:
  \<^item> \<open>PS_GetPathExt scope\<close>: the three scripts of \<open>GetCurrentPathExt\<close>
    (\<open>''System''\<close>, \<open>''User''\<close>, and \<open>''Effective''\<close> for the default branch);
  \<^item> \<open>PS_ShortPath p\<close>: the script of \<open>ToShortPath\<close> and \<open>getShortPathCommand\<close>
    (one text) with \<open>$path = 'p'\<close>;
  \<^item> \<open>PS_SetPath v t\<close>: \<open>[Environment]::SetEnvironmentVariable('Path', 'v', 't')\<close>;
  \<^item> \<open>PS_GetPathRaw scope\<close>, \<open>PS_Hostname\<close>, \<open>PS_Broadcast\<close>: the scripts of
    \<open>GetPathRaw\<close>, \<open>GetHostname\<close> and \<open>BroadcastEnvChange\<close>.
\<close>

datatype error = Err string

datatype pscommand =
    PS_GetPathExt string
  | PS_ShortPath string
  | PS_SetPath string string
  | PS_GetPathRaw string
  | PS_Hostname
  | PS_Broadcast

record Config =
  JunctionFolder :: string
  MaxBackups :: int
  AutoBackup :: bool
  HotPaths :: "string list"

record PathSnapshot =
  snap_Raw :: string
  snap_Entries :: "string list"

record Backup =
  Hostname :: string
  Suffix :: string
  SystemPath :: PathSnapshot
  UserPath :: PathSnapshot

record world =
  Run :: "pscommand \<Rightarrow> error + string"
  Stat :: "string \<Rightarrow> bool"
  Environ :: "string list"
  Getenv :: "string \<Rightarrow> string"
  StoredConfig :: Config
  EnsureBackupDirFails :: bool
  ReadBackupFile :: "string \<Rightarrow> error + Backup"

definition RunPowerShell :: "world \<Rightarrow> pscommand \<Rightarrow> error + string" where
  "RunPowerShell w command = Run w command"

definition LoadConfig :: "world \<Rightarrow> Config" where
  \<comment> \<open>the defaults overlaid with what the configuration file holds\<close>
  "LoadConfig w = StoredConfig w"

section \<open>PATHEXT (pathext.go)\<close>

definition DefaultPathExt :: string where
  "DefaultPathExt = ''.COM;.EXE;.BAT;.CMD;.VBS;.VBE;.JS;.JSE;.WSF;.WSH;.MSC''"

definition OptimalOrder :: "string list" where
  "OptimalOrder =
     [''.EXE'', ''.CMD'', ''.BAT'', ''.PS1'', ''.PY'', ''.PYW'', ''.COM'', ''.MSC'',
      ''.JS'', ''.VBS'', ''.VBE'', ''.JSE'', ''.WSF'', ''.WSH'']"

definition RemovableExtensions :: "string list" where
  "RemovableExtensions = [''.VBE'', ''.JSE'', ''.WSF'', ''.WSH'']"

record PathExtOptimization =
  Original_x :: string
  Optimized_x :: "string list"
  OptimizedString :: string
  Changed :: bool

definition GetCurrentPathExt :: "world \<Rightarrow> string \<Rightarrow> string" where
  "GetCurrentPathExt w scope =
     (let command =
        (if scope = ''System'' then PS_GetPathExt ''System''
         else if scope = ''User'' then PS_GetPathExt ''User''
         else PS_GetPathExt ''Effective'')
      in case RunPowerShell w command of
           Inl err \<Rightarrow> DefaultPathExt
         | Inr result \<Rightarrow> if result = [] then DefaultPathExt else result)"

definition ParsePathExt :: "world \<Rightarrow> string \<Rightarrow> string list" where
  "ParsePathExt w pathext =
     (let pathext = (if pathext = [] then GetCurrentPathExt w ''Effective'' else pathext);
          parts = Split pathext (CHR '';'')
      in filter (\<lambda>p. p \<noteq> []) (map (\<lambda>p. TrimSpace (ToUpper p)) parts))"

fun indexOf :: "string list \<Rightarrow> string \<Rightarrow> int" where
  "indexOf [] item = -1"
| "indexOf (v # slice) item =
     (if v = item then 0 else (let i = indexOf slice item in if i < 0 then -1 else i + 1))"

definition contains :: "string list \<Rightarrow> string \<Rightarrow> bool" where
  "contains slice item = (indexOf slice item \<ge> 0)"

text \<open>
  The two loops of \<open>OptimizePathExt\<close>. Their state is the list built so far and, for
  the first, the map \<open>added\<close> (a Go \<open>map[string]bool\<close>: a missing key reads as false).
\<close>

fun optimalLoop ::
  "bool \<Rightarrow> string list \<Rightarrow> string list \<Rightarrow> string list \<times> (string \<Rightarrow> bool)
    \<Rightarrow> string list \<times> (string \<Rightarrow> bool)" where
  "optimalLoop keepAll current [] st = st"
| "optimalLoop keepAll current (ext # rest) (optimized, added) =
     optimalLoop keepAll current rest
       (if contains current ext
        then (if keepAll \<or> \<not> contains RemovableExtensions ext
              then (optimized @ [ext], added(ext := True))
              else (optimized, added))
        else (optimized, added))"

fun remainingLoop ::
  "bool \<Rightarrow> (string \<Rightarrow> bool) \<Rightarrow> string list \<Rightarrow> string list \<Rightarrow> string list" where
  "remainingLoop keepAll added [] optimized = optimized"
| "remainingLoop keepAll added (ext # rest) optimized =
     remainingLoop keepAll added rest
       (if \<not> added ext
        then (if keepAll \<or> \<not> contains RemovableExtensions ext
              then optimized @ [ext] else optimized)
        else optimized)"

definition OptimizePathExt :: "world \<Rightarrow> bool \<Rightarrow> PathExtOptimization" where
  "OptimizePathExt w keepAll =
     (let current = ParsePathExt w [];
          original = Join current '';'';
          (optimized, added) = optimalLoop keepAll current OptimalOrder ([], \<lambda>_. False);
          optimized = remainingLoop keepAll added current optimized;
          optimizedStr = Join optimized '';''
      in \<lparr> Original_x = original, Optimized_x = optimized,
           OptimizedString = optimizedStr, Changed = (original \<noteq> optimizedStr) \<rparr>)"

section \<open>Parsing and normalizing PATH entries\<close>

subsection \<open>filepath.Clean on Windows\<close>

text \<open>
  \<open>NormalizePath\<close> ends in \<open>filepath.Clean\<close> of Go's standard library, which is
  not code of this repository. It is modelled from its documented rules, for the Windows
  build the program is written for (the tests expect \<open>C:/Windows/System32\<close> to
  normalize to \<open>c:\windows\system32\<close>): both \<open>/\<close> and \<open>\\<close> separate
  elements; empty and \<open>.\<close> elements are dropped; a \<open>..\<close> element removes the
  element before it, is dropped at the root, and is kept at the start of a path that is
  not rooted; the elements are joined with \<open>\\<close>; a drive letter with its colon is a
  volume name and is copied; an empty result is \<open>.\<close>. Volume names other than a drive
  letter (UNC shares, device paths) and the special treatment of a colon in the first
  element of a relative path are not modelled.
\<close>

definition isPathSeparator :: "char \<Rightarrow> bool" where
  "isPathSeparator c = (c = bslash \<or> c = CHR ''/'')"

definition isLetter :: "char \<Rightarrow> bool" where
  "isLetter c =
     ((65 \<le> (of_char c :: nat) \<and> (of_char c :: nat) \<le> 90) \<or>
      (97 \<le> (of_char c :: nat) \<and> (of_char c :: nat) \<le> 122))"

definition volumeNameLen :: "string \<Rightarrow> nat" where
  "volumeNameLen path =
     (case path of
        c # d # _ \<Rightarrow> if d = CHR '':'' \<and> isLetter c then 2 else 0
      | _ \<Rightarrow> 0)"

fun pathElements :: "string \<Rightarrow> string list" where
  "pathElements [] = [[]]"
| "pathElements (x # xs) =
     (if isPathSeparator x then [] # pathElements xs
      else (case pathElements xs of [] \<Rightarrow> [[x]] | y # ys \<Rightarrow> (x # y) # ys))"

text \<open>
  The state of the cleaning loop: the elements written so far, and how many leading
  \<open>..\<close> elements of them must stay (\<open>dotdot\<close> in the library).
\<close>

definition cleanStep :: "bool \<Rightarrow> string list \<times> nat \<Rightarrow> string \<Rightarrow> string list \<times> nat" where
  "cleanStep rooted st el =
     (case st of (out, dotdot) \<Rightarrow>
        if el = [] \<or> el = ''.'' then (out, dotdot)
        else if el = ''..'' then
          (if length out > dotdot then (butlast out, dotdot)
           else if \<not> rooted then (out @ [''..''], dotdot + 1)
           else (out, dotdot))
        else (out @ [el], dotdot))"

definition Clean :: "string \<Rightarrow> string" where
  "Clean path =
     (let volLen = volumeNameLen path;
          vol = take volLen path;
          rest = drop volLen path
      in if rest = [] then path @ ''.''
         else
           (let rooted = isPathSeparator (hd rest);
                out = fst (foldl (cleanStep rooted) ([], 0) (pathElements rest));
                cleaned = (if rooted then [bslash] else []) @ Join out [bslash]
            in vol @ (if cleaned = [] then ''.'' else cleaned)))"

subsection \<open>NormalizePath, PathExists, ParsePath, JoinPath\<close>

definition NormalizePath :: "string \<Rightarrow> string" where
  "NormalizePath p = Clean (TrimRight (ToLower p) [bslash, CHR ''/''])"

definition PathExists :: "world \<Rightarrow> string \<Rightarrow> bool" where
  "PathExists w path = (if Contains path (CHR ''%'') then True else Stat w path)"

definition ParsePath :: "string \<Rightarrow> string list" where
  "ParsePath pathStr =
     (if pathStr = [] then []
      else filter (\<lambda>e. e \<noteq> []) (map TrimSpace (Split pathStr (CHR '';''))))"

definition JoinPath :: "string list \<Rightarrow> string" where
  "JoinPath entries = Join entries '';''"

section \<open>Environment variables (envvars.go)\<close>

definition SubstitutionPriority :: "string list" where
  "SubstitutionPriority =
     [''LOCALAPPDATA'', ''APPDATA'', ''USERPROFILE'', ''ProgramFiles(x86)'', ''ProgramFiles'',
      ''ProgramW6432'', ''CommonProgramFiles(x86)'', ''CommonProgramFiles'', ''SystemRoot'',
      ''WINDIR'', ''SystemDrive'', ''JAVA_HOME'', ''GOPATH'', ''GOROOT'', ''CARGO_HOME'',
      ''RUSTUP_HOME'', ''NVM_HOME'', ''NVM_SYMLINK'', ''PNPM_HOME'']"

text \<open>
  \<open>GetAllEnvVars\<close> (registry.go) turns \<open>os.Environ()\<close> into a map:
  \<open>strings.SplitN(env, "=", 2)\<close> cuts at the first \<open>=\<close>, an entry without one is
  skipped, and a later entry overwrites an earlier one of the same name.
\<close>

definition envStep :: "(string \<rightharpoonup> string) \<Rightarrow> string \<Rightarrow> (string \<rightharpoonup> string)" where
  "envStep vars env =
     (case Index env (CHR ''='') of
        None \<Rightarrow> vars
      | Some i \<Rightarrow> vars(take i env \<mapsto> drop (i + 1) env))"

definition GetAllEnvVars :: "world \<Rightarrow> (string \<rightharpoonup> string)" where
  "GetAllEnvVars w = foldl envStep Map.empty (Environ w)"

text \<open>
  \<open>expandShortUserPath\<close>. The slices \<open>path[len(usersDir):]\<close> and
  \<open>userProfile[len(usersDir):]\<close> are taken after \<open>HasPrefix\<close> has held for the
  lower-cased strings, whose length need not be that of the originals, so each of them can
  be out of range; the function then panics and the result is \<open>None\<close>. The slices at
  an index that \<open>strings.Index\<close> has returned are in range, and so is
  \<open>userProfile[:len(usersDir)]\<close> once \<open>userProfile[len(usersDir):]\<close> was.
\<close>

definition expandShortUserPath :: "world \<Rightarrow> string \<Rightarrow> string option" where
  "expandShortUserPath w path =
     (let pathLower = ToLower path;
          systemDrive = ToLower (Getenv w ''SystemDrive'');
          systemDrive = (if systemDrive = [] then ''c:'' else systemDrive);
          usersDir = systemDrive @ [bslash] @ ''users'' @ [bslash]
      in if \<not> HasPrefix pathLower usersDir then Some path
         else
           (case sliceFrom path (length usersDir) of
              None \<Rightarrow> None
            | Some afterUsers \<Rightarrow>
                (case Index afterUsers bslash of
                   None \<Rightarrow> Some path
                 | Some nextSlash \<Rightarrow>
                     (let userPart = take nextSlash afterUsers
                      in if \<not> Contains userPart (CHR ''~'') then Some path
                         else
                           (let userProfile = Getenv w ''USERPROFILE''
                            in if userProfile = [] then Some path
                               else if \<not> HasPrefix (ToLower userProfile) usersDir then Some path
                               else
                                 (case sliceFrom userProfile (length usersDir) of
                                    None \<Rightarrow> None
                                  | Some realUserPart \<Rightarrow>
                                      (let realUserPart =
                                             (case Index realUserPart bslash of
                                                Some idx \<Rightarrow> take idx realUserPart
                                              | None \<Rightarrow> realUserPart);
                                           remaining = drop nextSlash afterUsers
                                       in Some (take (length usersDir) userProfile
                                                @ realUserPart @ remaining))))))))"

record bestMatch =
  varName :: string
  remaining :: string
  saved :: int

text \<open>
  One turn of the loop of \<open>SubstituteEnvVars\<close>. The slice
  \<open>normalizedPath[len(value):]\<close> is taken after \<open>HasPrefix(pathLower, valueLower)\<close>,
  at the length of the value and not of its lower-cased form: it panics when the value is
  longer than the path, and the turn has no result then.
\<close>

definition substStep ::
  "(string \<rightharpoonup> string) \<Rightarrow> string \<Rightarrow> string \<Rightarrow> string \<Rightarrow> bestMatch \<Rightarrow> string
    \<Rightarrow> bestMatch option" where
  "substStep envVars path normalizedPath pathLower best name =
     (case envVars name of
        None \<Rightarrow> Some best
      | Some val \<Rightarrow>
          if val = [] then Some best
          else
            (let valueLower = ToLower val
             in if HasPrefix pathLower valueLower
                then
                  (case sliceFrom normalizedPath (length val) of
                     None \<Rightarrow> None
                   | Some rest \<Rightarrow>
                       if rest = [] \<or> hd rest = bslash \<or> hd rest = CHR ''/''
                       then
                         (let newPath = ''%'' @ name @ ''%'' @ rest;
                              sv = int (length path) - int (length newPath)
                          in if sv > saved best
                             then Some \<lparr> varName = name, remaining = rest, saved = sv \<rparr>
                             else Some best)
                       else Some best)
                else Some best))"

fun substLoop ::
  "(string \<rightharpoonup> string) \<Rightarrow> string \<Rightarrow> string \<Rightarrow> string \<Rightarrow> string list \<Rightarrow> bestMatch
    \<Rightarrow> bestMatch option" where
  "substLoop envVars path normalizedPath pathLower [] best = Some best"
| "substLoop envVars path normalizedPath pathLower (name # names) best =
     (case substStep envVars path normalizedPath pathLower best name of
        None \<Rightarrow> None
      | Some best' \<Rightarrow> substLoop envVars path normalizedPath pathLower names best')"

definition SubstituteEnvVars :: "world \<Rightarrow> string \<Rightarrow> (string \<times> bool) option" where
  \<comment> \<open>\<open>None\<close>: the call panics\<close>
  "SubstituteEnvVars w path =
     (if path = [] \<or> Contains path (CHR ''%'') then Some (path, False)
      else
        (case expandShortUserPath w path of
           None \<Rightarrow> None
         | Some normalizedPath \<Rightarrow>
             (let pathLower = ToLower normalizedPath;
                  envVars = GetAllEnvVars w
              in case substLoop envVars path normalizedPath pathLower SubstitutionPriority
                        \<lparr> varName = [], remaining = [], saved = 0 \<rparr> of
                   None \<Rightarrow> None
                 | Some best \<Rightarrow>
                     if varName best \<noteq> [] \<and> saved best > 0
                     then Some (''%'' @ varName best @ ''%'' @ remaining best, True)
                     else Some (path, False))))"

text \<open>
  The loop of \<open>ExpandEnvVars\<close> has no bound in the source, so it is a partial function:
  \<open>None\<close> means that the loop never ends.
\<close>

definition lookupVar :: "(string \<rightharpoonup> string) \<Rightarrow> (string \<Rightarrow> string) \<Rightarrow> string \<Rightarrow> string" where
  \<comment> \<open>\<open>value, ok := envVars[varName]; if !ok { value = os.Getenv(varName) }\<close>\<close>
  "lookupVar envVars getenv name = (case envVars name of Some v \<Rightarrow> v | None \<Rightarrow> getenv name)"

partial_function (option) expandLoop ::
  "(string \<rightharpoonup> string) \<Rightarrow> (string \<Rightarrow> string) \<Rightarrow> string \<Rightarrow> string option" where
  "expandLoop envVars getenv result =
     (case Index result (CHR ''%'') of
        None \<Rightarrow> Some result
      | Some start \<Rightarrow>
          (case Index (drop (start + 1) result) (CHR ''%'') of
             None \<Rightarrow> Some result
           | Some e \<Rightarrow>
               if lookupVar envVars getenv (take e (drop (start + 1) result)) \<noteq> []
               then expandLoop envVars getenv
                      (take start result
                       @ lookupVar envVars getenv (take e (drop (start + 1) result))
                       @ drop (e + (start + 1) + 1) result)
               else Some result))"

declare expandLoop.simps [code]

definition ExpandEnvVars :: "world \<Rightarrow> string \<Rightarrow> string option" where
  "ExpandEnvVars w path =
     (if path = [] \<or> \<not> Contains path (CHR ''%'') then Some path
      else expandLoop (GetAllEnvVars w) (Getenv w) path)"

section \<open>8.3 short names\<close>

definition ToShortPath :: "world \<Rightarrow> string \<Rightarrow> string \<times> bool" where
  "ToShortPath w path =
     (if path = [] \<or> Contains path (CHR ''%'') then (path, False)
      else
        (case RunPowerShell w (PS_ShortPath (ReplaceAll path (CHR 0x27) [CHR 0x27, CHR 0x27])) of
           Inl err \<Rightarrow> (path, False)
         | Inr result \<Rightarrow>
             if result = [] \<or> result = path then (path, False)
             else if length result < length path then (result, True)
             else (path, False)))"

definition extractVarAndSuffix :: "string \<Rightarrow> (string \<times> string) option" where
  \<comment> \<open>\<open>None\<close> is \<open>ok = false\<close>\<close>
  "extractVarAndSuffix pathWithVar =
     (if \<not> Contains pathWithVar (CHR ''%'') then None
      else
        (case LastIndex pathWithVar (CHR ''%'') of
           None \<Rightarrow> None
         | Some lastPercent \<Rightarrow>
             if int lastPercent = int (length pathWithVar) - 1 then None
             else
               (let varPart = take (lastPercent + 1) pathWithVar;
                    sfx = drop (lastPercent + 1) pathWithVar
                in if sfx = [] \<or> sfx = [bslash] then None
                   else Some (varPart, sfx))))"

text \<open>
  \<open>ShortenSuffix\<close> calls \<open>ExpandEnvVars\<close> twice, so it returns only if both loops
  end. The slice \<open>shortExpanded[len(expandedVarValue):]\<close> follows a \<open>HasPrefix\<close> of
  the lower-cased strings and panics when the value is longer than the short path. The
  result \<open>None\<close> is a call that gives no result: it never returns, or it panics.
\<close>

definition ShortenSuffix :: "world \<Rightarrow> string \<Rightarrow> (string \<times> bool) option" where
  "ShortenSuffix w pathWithVar =
     (case extractVarAndSuffix pathWithVar of
        None \<Rightarrow> Some (pathWithVar, False)
      | Some (varPart, sfx) \<Rightarrow>
          (case ExpandEnvVars w pathWithVar of
             None \<Rightarrow> None
           | Some expanded \<Rightarrow>
               if expanded = [] \<or> expanded = pathWithVar then Some (pathWithVar, False)
               else
                 (case RunPowerShell w
                         (PS_ShortPath (ReplaceAll expanded (CHR 0x27) [CHR 0x27, CHR 0x27])) of
                    Inl err \<Rightarrow> Some (pathWithVar, False)
                  | Inr shortExpanded \<Rightarrow>
                      if shortExpanded = [] \<or> shortExpanded = expanded
                      then Some (pathWithVar, False)
                      else
                        (case ExpandEnvVars w varPart of
                           None \<Rightarrow> None
                         | Some expandedVarValue \<Rightarrow>
                             if HasPrefix (ToLower shortExpanded) (ToLower expandedVarValue)
                             then
                               (case sliceFrom shortExpanded (length expandedVarValue) of
                                  None \<Rightarrow> None
                                | Some shortSuffix \<Rightarrow>
                                    (let newPath = varPart @ shortSuffix
                                     in if length newPath < length pathWithVar
                                        then Some (newPath, True)
                                        else Some (pathWithVar, False)))
                             else Some (pathWithVar, False)))))"

section \<open>The optimizer\<close>

record OptimizeOptions =
  RemoveDuplicates :: bool
  RemoveDeadPaths :: bool
  ShortenPaths :: bool
  SubstituteVars :: bool
  ReorderPaths :: bool
  Scope :: string

definition DefaultOptions :: OptimizeOptions where
  "DefaultOptions =
     \<lparr> RemoveDuplicates = True, RemoveDeadPaths = True, ShortenPaths = True,
       SubstituteVars = True, ReorderPaths = False, Scope = ''User'' \<rparr>"

record PathChange =
  ch_Type :: string
  ch_Original :: string
  ch_New :: string
  ch_Saved :: int

record PathInfo =
  Raw :: string
  Entries :: "string list"
  Length :: int
  Count :: int

text \<open>
  \<open>PercentageSaved\<close> is a \<open>float64\<close>. Its value is fixed by the two integers it is
  computed from, so it is kept as that computation: \<open>PercentOf a b\<close> stands for
  \<open>float64(a) / float64(b) * 100\<close>, and \<open>PercentZero\<close> for the zero value the field
  has when it is never assigned.
\<close>

datatype percent = PercentZero | PercentOf int int

record OptimizeMetrics =
  DuplicatesRemoved :: int
  DeadPathsRemoved :: int
  PathsShortened :: int
  VarsSubstituted :: int
  TotalSaved :: int
  PercentageSaved :: percent

record OptimizeResult =
  Original :: PathInfo
  Optimized :: PathInfo
  Changes :: "PathChange list"
  Metrics :: OptimizeMetrics

definition emptyPathInfo :: PathInfo where
  "emptyPathInfo = \<lparr> Raw = [], Entries = [], Length = 0, Count = 0 \<rparr>"

definition emptyResult :: OptimizeResult where
  \<comment> \<open>\<open>OptimizeResult{}\<close>\<close>
  "emptyResult =
     \<lparr> Original = emptyPathInfo, Optimized = emptyPathInfo, Changes = [],
       Metrics = \<lparr> DuplicatesRemoved = 0, DeadPathsRemoved = 0, PathsShortened = 0,
                   VarsSubstituted = 0, TotalSaved = 0, PercentageSaved = PercentZero \<rparr> \<rparr>"

text \<open>The bookkeeping the optimizer does on its result when it drops or changes an entry.\<close>

definition recordDuplicate :: "string \<Rightarrow> OptimizeResult \<Rightarrow> OptimizeResult" where
  "recordDuplicate entry r =
     r\<lparr> Changes := Changes r @
            [\<lparr> ch_Type = ''duplicate'', ch_Original = entry, ch_New = [], ch_Saved = 0 \<rparr>],
        Metrics := (Metrics r)\<lparr> DuplicatesRemoved := DuplicatesRemoved (Metrics r) + 1 \<rparr> \<rparr>"

definition recordDead :: "string \<Rightarrow> OptimizeResult \<Rightarrow> OptimizeResult" where
  "recordDead entry r =
     r\<lparr> Changes := Changes r @
            [\<lparr> ch_Type = ''dead'', ch_Original = entry, ch_New = [], ch_Saved = 0 \<rparr>],
        Metrics := (Metrics r)\<lparr> DeadPathsRemoved := DeadPathsRemoved (Metrics r) + 1 \<rparr> \<rparr>"

definition recordShortened :: "string \<Rightarrow> string \<Rightarrow> OptimizeResult \<Rightarrow> OptimizeResult" where
  "recordShortened current short r =
     (let sv = int (length current) - int (length short)
      in r\<lparr> Changes := Changes r @
                [\<lparr> ch_Type = ''shortened'', ch_Original = current, ch_New = short, ch_Saved = sv \<rparr>],
            Metrics := (Metrics r)\<lparr> PathsShortened := PathsShortened (Metrics r) + 1,
                                     TotalSaved := TotalSaved (Metrics r) + sv \<rparr> \<rparr>)"

definition recordVariable :: "string \<Rightarrow> string \<Rightarrow> OptimizeResult \<Rightarrow> OptimizeResult" where
  "recordVariable current subst r =
     (let sv = int (length current) - int (length subst)
      in r\<lparr> Changes := Changes r @
                [\<lparr> ch_Type = ''variable'', ch_Original = current, ch_New = subst, ch_Saved = sv \<rparr>],
            Metrics := (Metrics r)\<lparr> VarsSubstituted := VarsSubstituted (Metrics r) + 1,
                                     TotalSaved := TotalSaved (Metrics r) + sv \<rparr> \<rparr>)"

subsection \<open>applyHotPaths\<close>

text \<open>
  \<open>hotPathsSet\<close> is a Go \<open>map[string]int\<close>; \<open>hot\<close> and \<open>hotFound\<close> are slices of
  the length of \<open>hotPaths\<close>, written at an index the map holds, which is below that
  length, so \<open>list_update\<close> is the assignment.
\<close>

fun buildHotPathsSet :: "nat \<Rightarrow> string list \<Rightarrow> (string \<rightharpoonup> nat) \<Rightarrow> (string \<rightharpoonup> nat)" where
  "buildHotPathsSet i [] m = m"
| "buildHotPathsSet i (hp # hps) m = buildHotPathsSet (i + 1) hps (m(NormalizePath hp \<mapsto> i))"

fun separateLoop ::
  "(string \<rightharpoonup> nat) \<Rightarrow> string list \<Rightarrow> string list \<times> bool list \<times> string list
    \<Rightarrow> string list \<times> bool list \<times> string list" where
  "separateLoop hotPathsSet [] st = st"
| "separateLoop hotPathsSet (entry # entries) (hot, hotFound, regular) =
     separateLoop hotPathsSet entries
       (case hotPathsSet (NormalizePath entry) of
          Some idx \<Rightarrow> (hot[idx := entry], hotFound[idx := True], regular)
        | None \<Rightarrow> (hot, hotFound, regular @ [entry]))"

fun collectHot :: "string list \<Rightarrow> bool list \<Rightarrow> string list" where
  "collectHot (h # hot) (f # hotFound) = (if f then h # collectHot hot hotFound else collectHot hot hotFound)"
| "collectHot _ _ = []"

definition applyHotPaths :: "string list \<Rightarrow> string list \<Rightarrow> string list" where
  "applyHotPaths entries hotPaths =
     (if length hotPaths = 0 then entries
      else
        (let hotPathsSet = buildHotPathsSet 0 hotPaths Map.empty;
             (hot, hotFound, regular) =
               separateLoop hotPathsSet entries
                 (replicate (length hotPaths) [], replicate (length hotPaths) False, [])
         in collectHot hot hotFound @ regular))"

subsection \<open>The entry processor (the refactored optimizer)\<close>

record entryProcessor =
  opts :: OptimizeOptions
  result :: OptimizeResult
  seen :: "string \<Rightarrow> bool"

definition newEntryProcessor :: "OptimizeOptions \<Rightarrow> OptimizeResult \<Rightarrow> entryProcessor" where
  "newEntryProcessor os r = \<lparr> opts = os, result = r, seen = (\<lambda>_. False) \<rparr>"

definition isDuplicate :: "entryProcessor \<Rightarrow> string \<Rightarrow> string \<Rightarrow> bool \<times> entryProcessor" where
  "isDuplicate p entry normalized =
     (if \<not> RemoveDuplicates (opts p) then (False, p)
      else if seen p normalized
      then (True, p\<lparr> result := recordDuplicate entry (result p) \<rparr>)
      else (False, p\<lparr> seen := (seen p)(normalized := True) \<rparr>))"

definition isDeadPath :: "world \<Rightarrow> entryProcessor \<Rightarrow> string \<Rightarrow> bool \<times> entryProcessor" where
  "isDeadPath w p entry =
     (if \<not> RemoveDeadPaths (opts p) then (False, p)
      else if Contains entry (CHR ''%'') then (False, p)
      else if PathExists w entry then (False, p)
      else (True, p\<lparr> result := recordDead entry (result p) \<rparr>))"

definition tryShorten :: "world \<Rightarrow> entryProcessor \<Rightarrow> string \<Rightarrow> string \<times> entryProcessor" where
  "tryShorten w p current =
     (if \<not> ShortenPaths (opts p) \<or> Contains current (CHR ''%'') then (current, p)
      else
        (case ToShortPath w current of (short, shortened) \<Rightarrow>
           if \<not> shortened \<or> length short \<ge> length current then (current, p)
           else (short, p\<lparr> result := recordShortened current short (result p) \<rparr>)))"

definition trySubstituteVars ::
  "world \<Rightarrow> entryProcessor \<Rightarrow> string \<Rightarrow> (string \<times> entryProcessor) option" where
  "trySubstituteVars w p current =
     (if \<not> SubstituteVars (opts p) \<or> Contains current (CHR ''%'') then Some (current, p)
      else
        (case SubstituteEnvVars w current of
           None \<Rightarrow> None
         | Some (subst, substituted) \<Rightarrow>
             if \<not> substituted \<or> length subst \<ge> length current then Some (current, p)
             else Some (subst, p\<lparr> result := recordVariable current subst (result p) \<rparr>)))"

definition tryShortenSuffix ::
  "world \<Rightarrow> entryProcessor \<Rightarrow> string \<Rightarrow> (string \<times> entryProcessor) option" where
  "tryShortenSuffix w p current =
     (if \<not> ShortenPaths (opts p) then Some (current, p)
      else
        (case ShortenSuffix w current of
           None \<Rightarrow> None
         | Some (shortSuffix, shortened) \<Rightarrow>
             if \<not> shortened \<or> length shortSuffix \<ge> length current then Some (current, p)
             else Some (shortSuffix,
                        p\<lparr> result := recordShortened current shortSuffix (result p) \<rparr>)))"

text \<open>
  \<open>processEntry\<close> returns the entry to keep, or \<open>None\<close> for \<open>("", false)\<close>, together
  with the processor it has updated; the outer \<open>None\<close> is a call that gives no result
  (it panics in \<open>SubstituteEnvVars\<close> or \<open>ShortenSuffix\<close>, or never leaves the loop of
  \<open>ExpandEnvVars\<close>).
\<close>

definition processEntry ::
  "world \<Rightarrow> entryProcessor \<Rightarrow> string \<Rightarrow> (string option \<times> entryProcessor) option" where
  "processEntry w p entry =
     (let normalized = NormalizePath entry
      in case isDuplicate p entry normalized of (dup, p1) \<Rightarrow>
           if dup then Some (None, p1)
           else
             (case isDeadPath w p1 entry of (dead, p2) \<Rightarrow>
                if dead then Some (None, p2)
                else
                  (case tryShorten w p2 entry of (current, p3) \<Rightarrow>
                     (let beforeSubst = current
                      in case trySubstituteVars w p3 current of
                           None \<Rightarrow> None
                         | Some (current, p4) \<Rightarrow>
                             if current \<noteq> beforeSubst
                             then (case tryShortenSuffix w p4 current of
                                     None \<Rightarrow> None
                                   | Some (current, p5) \<Rightarrow> Some (Some current, p5))
                             else Some (Some current, p4)))))"

fun processLoop ::
  "world \<Rightarrow> string list \<Rightarrow> entryProcessor \<times> string list \<Rightarrow> (entryProcessor \<times> string list) option" where
  "processLoop w [] st = Some st"
| "processLoop w (entry # entries) (p, optimized) =
     (case processEntry w p entry of
        None \<Rightarrow> None
      | Some (Some processed, p') \<Rightarrow> processLoop w entries (p', optimized @ [processed])
      | Some (None, p') \<Rightarrow> processLoop w entries (p', optimized))"

definition finishResult :: "world \<Rightarrow> OptimizeResult \<Rightarrow> string list \<Rightarrow> OptimizeResult" where
  \<comment> \<open>the lines both optimizers end with, from \<open>config := LoadConfig()\<close> on\<close>
  "finishResult w r optimized =
     (let config = LoadConfig w;
          optimized = (if length (HotPaths config) > 0
                       then applyHotPaths optimized (HotPaths config) else optimized);
          r = r\<lparr> Optimized := \<lparr> Raw = JoinPath optimized, Entries = optimized,
                                 Length = int (length (JoinPath optimized)),
                                 Count = int (length optimized) \<rparr> \<rparr>
      in if Length (Original r) > 0
         then r\<lparr> Metrics := (Metrics r)\<lparr> PercentageSaved :=
                   PercentOf (Length (Original r) - Length (Optimized r)) (Length (Original r)) \<rparr> \<rparr>
         else r)"

definition startResult :: "string \<Rightarrow> OptimizeResult" where
  \<comment> \<open>\<open>result := OptimizeResult{}\<close> and the four assignments to \<open>result.Original\<close>\<close>
  "startResult pathStr =
     emptyResult\<lparr> Original := \<lparr> Raw = pathStr, Entries = ParsePath pathStr,
                                Length = int (length pathStr),
                                Count = int (length (ParsePath pathStr)) \<rparr> \<rparr>"

text \<open>
  \<open>OptimizeWithProgress\<close> of the refactored file. The progress callback receives
  \<open>(startIdx + i, total, entry)\<close> and returns nothing: it cannot change the result and is
  left out, with \<open>startIdx\<close> and \<open>total\<close>.
\<close>

definition OptimizeWithProgress :: "world \<Rightarrow> string \<Rightarrow> OptimizeOptions \<Rightarrow> OptimizeResult option" where
  "OptimizeWithProgress w pathStr os =
     (let r = startResult pathStr;
          processor = newEntryProcessor os r
      in case processLoop w (ParsePath pathStr) (processor, []) of
           None \<Rightarrow> None
         | Some (processor, optimized) \<Rightarrow> Some (finishResult w (result processor) optimized))"

definition Optimize :: "world \<Rightarrow> string \<Rightarrow> OptimizeOptions \<Rightarrow> OptimizeResult option" where
  "Optimize w pathStr os = OptimizeWithProgress w pathStr os"

subsection \<open>The inline optimizer\<close>

text \<open>
  The older \<open>OptimizeWithProgress\<close>, whose loop body does the five checks itself. The
  state of its loop is \<open>result\<close>, \<open>seen\<close> and \<open>optimized\<close>.
\<close>

definition inlineBody ::
  "world \<Rightarrow> OptimizeOptions \<Rightarrow> OptimizeResult \<times> (string \<Rightarrow> bool) \<times> string list \<Rightarrow> string
    \<Rightarrow> (OptimizeResult \<times> (string \<Rightarrow> bool) \<times> string list) option" where
  "inlineBody w os st entry =
     (case st of (r, sn, optimized) \<Rightarrow>
        (let normalized = NormalizePath entry
         in if RemoveDuplicates os \<and> sn normalized
            then Some (recordDuplicate entry r, sn, optimized)
            else
              (let sn = sn(normalized := True)
               in if RemoveDeadPaths os \<and> \<not> Contains entry (CHR ''%'') \<and> \<not> PathExists w entry
                  then Some (recordDead entry r, sn, optimized)
                  else
                    (let current = entry;
                         (r, current) =
                           (if ShortenPaths os \<and> \<not> Contains entry (CHR ''%'')
                            then (case ToShortPath w entry of (short, shortened) \<Rightarrow>
                                    if shortened \<and> length short < length current
                                    then (recordShortened current short r, short)
                                    else (r, current))
                            else (r, current))
                     in if SubstituteVars os \<and> \<not> Contains current (CHR ''%'')
                        then
                          (case SubstituteEnvVars w current of
                             None \<Rightarrow> None
                           | Some (subst, substituted) \<Rightarrow>
                               if substituted \<and> length subst < length current
                               then
                                 (let r = recordVariable current subst r;
                                      current = subst
                                  in if ShortenPaths os
                                     then
                                       (case ShortenSuffix w current of
                                          None \<Rightarrow> None
                                        | Some (shortSuffix, shortened) \<Rightarrow>
                                            if shortened \<and> length shortSuffix < length current
                                            then Some (recordShortened current shortSuffix r, sn,
                                                       optimized @ [shortSuffix])
                                            else Some (r, sn, optimized @ [current]))
                                     else Some (r, sn, optimized @ [current]))
                               else Some (r, sn, optimized @ [current]))
                        else Some (r, sn, optimized @ [current])))))"

fun inlineLoop ::
  "world \<Rightarrow> OptimizeOptions \<Rightarrow> string list \<Rightarrow> OptimizeResult \<times> (string \<Rightarrow> bool) \<times> string list
    \<Rightarrow> (OptimizeResult \<times> (string \<Rightarrow> bool) \<times> string list) option" where
  "inlineLoop w os [] st = Some st"
| "inlineLoop w os (entry # entries) st =
     (case inlineBody w os st entry of
        None \<Rightarrow> None
      | Some st' \<Rightarrow> inlineLoop w os entries st')"

definition OptimizeWithProgress_inline ::
  "world \<Rightarrow> string \<Rightarrow> OptimizeOptions \<Rightarrow> OptimizeResult option" where
  "OptimizeWithProgress_inline w pathStr os =
     (case inlineLoop w os (ParsePath pathStr) (startResult pathStr, (\<lambda>_. False), []) of
        None \<Rightarrow> None
      | Some (r, sn, optimized) \<Rightarrow> Some (finishResult w r optimized))"

section \<open>Restoring a backup (backup.go)\<close>

text \<open>
  What \<open>RestoreBackup\<close> does is what it hands to the runner, so the functions of this
  section return, next to their result, the list of the commands run so far.
  \<open>LoadBackup\<close> reads and decodes the backup file; \<open>CreateBackup\<close> is called for its
  effect only (its result is dropped): unless the backup directory cannot be made it asks
  the runner for the host name and the two raw PATH values before it writes its file.
\<close>

definition runLogged ::
  "world \<Rightarrow> pscommand \<Rightarrow> pscommand list \<Rightarrow> (error + string) \<times> pscommand list" where
  "runLogged w command log = (RunPowerShell w command, log @ [command])"

definition LoadBackup :: "world \<Rightarrow> string \<Rightarrow> error + Backup" where
  "LoadBackup w filename = ReadBackupFile w filename"

definition CreateBackup_commands :: "world \<Rightarrow> string \<Rightarrow> pscommand list \<Rightarrow> pscommand list" where
  "CreateBackup_commands w sfx log =
     (if EnsureBackupDirFails w then log
      else snd (runLogged w (PS_GetPathRaw ''User'')
             (snd (runLogged w (PS_GetPathRaw ''System'')
                (snd (runLogged w PS_Hostname log))))))"

definition SetPath ::
  "world \<Rightarrow> string \<Rightarrow> string \<Rightarrow> pscommand list \<Rightarrow> error option \<times> pscommand list" where
  "SetPath w val scope log =
     (let target = (if scope = ''System'' then ''Machine'' else ''User'');
          escaped = ReplaceAll val (CHR 0x27) [CHR 0x27, CHR 0x27]
      in case runLogged w (PS_SetPath escaped target) log of
           (Inl err, log') \<Rightarrow> (Some err, log')
         | (Inr out, log') \<Rightarrow> (None, log'))"

definition BroadcastEnvChange :: "world \<Rightarrow> pscommand list \<Rightarrow> pscommand list" where
  "BroadcastEnvChange w log = snd (runLogged w PS_Broadcast log)"

definition wrapError :: "string \<Rightarrow> error \<Rightarrow> error" where
  \<comment> \<open>\<open>fmt.Errorf(msg + ": %w", err)\<close>\<close>
  "wrapError msg err = (case err of Err m \<Rightarrow> Err (msg @ '': '' @ m))"

definition RestoreBackup ::
  "world \<Rightarrow> string \<Rightarrow> bool \<Rightarrow> error option \<times> pscommand list" where
  "RestoreBackup w filename isAdmin =
     (case LoadBackup w filename of
        Inl err \<Rightarrow> (Some err, [])
      | Inr backup \<Rightarrow>
          (let log = CreateBackup_commands w ''pre-restore'' []
           in case (if snap_Raw (UserPath backup) \<noteq> []
                    then SetPath w (snap_Raw (UserPath backup)) ''User'' log
                    else (None, log)) of
                (Some err, log) \<Rightarrow> (Some (wrapError ''failed to restore user PATH'' err), log)
              | (None, log) \<Rightarrow>
                  (case (if isAdmin \<and> snap_Raw (SystemPath backup) \<noteq> []
                         then SetPath w (snap_Raw (SystemPath backup)) ''System'' log
                         else (None, log)) of
                     (Some err, log) \<Rightarrow>
                       (Some (wrapError ''failed to restore system PATH'' err), log)
                   | (None, log) \<Rightarrow> (None, BroadcastEnvChange w log))))"

definition isSetPath :: "pscommand \<Rightarrow> bool" where
  "isSetPath c = (case c of PS_SetPath v t \<Rightarrow> True | _ \<Rightarrow> False)"

section \<open>The relation between the two optimizers' loop bodies\<close>

text \<open>
  One call of \<open>processEntry\<close> and one turn of the inline loop, started on the same
  result, agree when both give no result, or both return the same result, the same list of
  kept entries and, where duplicates are removed, the same \<open>seen\<close> map (the inline loop
  marks every entry as seen, the processor only when it removes duplicates).
\<close>

definition sim ::
  "OptimizeOptions \<Rightarrow> string list \<Rightarrow> (string option \<times> entryProcessor) option
    \<Rightarrow> (OptimizeResult \<times> (string \<Rightarrow> bool) \<times> string list) option \<Rightarrow> bool" where
  "sim os optimized a b = (case (a, b) of
           (None, None) \<Rightarrow> True
         | (Some (x, p'), Some (r', sn', optimized')) \<Rightarrow>
             result p' = r' \<and> opts p' = os \<and> (RemoveDuplicates os \<longrightarrow> seen p' = sn')
             \<and> optimized' = (case x of None \<Rightarrow> optimized | Some e \<Rightarrow> optimized @ [e])
         | _ \<Rightarrow> False)"

section \<open>The writes of a restore\<close>

text \<open>
  The command with which \<open>SetPath\<close> writes the user PATH of a backup, the one with which
  it writes the system PATH, and the error, if any, with which the runner answers a
  command.
\<close>

definition userWrite :: "Backup \<Rightarrow> pscommand" where
  "userWrite b =
     PS_SetPath (ReplaceAll (snap_Raw (UserPath b)) (CHR 0x27) [CHR 0x27, CHR 0x27]) ''User''"

definition systemWrite :: "Backup \<Rightarrow> pscommand" where
  "systemWrite b =
     PS_SetPath (ReplaceAll (snap_Raw (SystemPath b)) (CHR 0x27) [CHR 0x27, CHR 0x27]) ''Machine''"

definition writeError :: "world \<Rightarrow> pscommand \<Rightarrow> error option" where
  "writeError w c = (case RunPowerShell w c of Inl e \<Rightarrow> Some e | Inr out \<Rightarrow> None)"

section \<open>Concrete worlds and inputs\<close>

text \<open>The worlds at which the theorems below are instantiated.\<close>

definition world_pathext :: world where
  "world_pathext =
     \<lparr> Run = (\<lambda>c. Inr ''.CMD;.EXE;.BAT''), Stat = (\<lambda>_. True), Environ = [],
       Getenv = (\<lambda>_. []),
       StoredConfig = \<lparr> JunctionFolder = [], MaxBackups = 10, AutoBackup = True, HotPaths = [] \<rparr>,
       EnsureBackupDirFails = False, ReadBackupFile = (\<lambda>_. Inl (Err [])) \<rparr>"

definition world_scenario :: world where
  \<comment> \<open>only \<open>C:\Windows\<close> exists; no hot paths are configured\<close>
  "world_scenario =
     \<lparr> Run = (\<lambda>c. Inl (Err ''no shell'')), Stat = (\<lambda>p. p = win ''C:|Windows''), Environ = [],
       Getenv = (\<lambda>_. []),
       StoredConfig = \<lparr> JunctionFolder = win ''C:|l'', MaxBackups = 10, AutoBackup = True,
                        HotPaths = [] \<rparr>,
       EnsureBackupDirFails = False, ReadBackupFile = (\<lambda>_. Inl (Err ''no such file'')) \<rparr>"

definition options_removal_only :: OptimizeOptions where
  "options_removal_only = DefaultOptions\<lparr> ShortenPaths := False, SubstituteVars := False \<rparr>"


definition world_selfref :: world where
  \<comment> \<open>the variable \<open>A\<close> holds the text \<open>%A%\<close>\<close>
  "world_selfref =
     \<lparr> Run = (\<lambda>c. Inl (Err ''no shell'')), Stat = (\<lambda>_. True),
       Environ = [''A=%A%''],
       Getenv = (\<lambda>n. if n = ''A'' then ''%A%'' else []),
       StoredConfig = \<lparr> JunctionFolder = win ''C:|l'', MaxBackups = 10, AutoBackup = True,
                        HotPaths = [] \<rparr>,
       EnsureBackupDirFails = False, ReadBackupFile = (\<lambda>_. Inl (Err ''no such file'')) \<rparr>"

definition backup_full :: Backup where
  "backup_full =
     \<lparr> Hostname = ''pc'', Suffix = ''manual'',
       SystemPath = \<lparr> snap_Raw = win ''C:|Windows'', snap_Entries = [win ''C:|Windows''] \<rparr>,
       UserPath = \<lparr> snap_Raw = win ''C:|bin'', snap_Entries = [win ''C:|bin''] \<rparr> \<rparr>"

definition backup_no_user :: Backup where
  \<comment> \<open>a backup taken when the user PATH was empty\<close>
  "backup_no_user =
     \<lparr> Hostname = ''pc'', Suffix = ''manual'',
       SystemPath = \<lparr> snap_Raw = win ''C:|Windows'', snap_Entries = [win ''C:|Windows''] \<rparr>,
       UserPath = \<lparr> snap_Raw = [], snap_Entries = [] \<rparr> \<rparr>"

definition world_restore :: world where
  \<comment> \<open>two backup files; the runner refuses to write the machine PATH\<close>
  "world_restore =
     \<lparr> Run = (\<lambda>c. case c of
                  PS_SetPath v t \<Rightarrow> if t = ''Machine'' then Inl (Err ''access denied'') else Inr []
                | _ \<Rightarrow> Inr []),
       Stat = (\<lambda>_. True), Environ = [], Getenv = (\<lambda>_. []),
       StoredConfig = \<lparr> JunctionFolder = win ''C:|l'', MaxBackups = 10, AutoBackup = True,
                        HotPaths = [] \<rparr>,
       EnsureBackupDirFails = False,
       ReadBackupFile = (\<lambda>f. if f = ''full.json'' then Inr backup_full
                             else if f = ''nouser.json'' then Inr backup_no_user
                             else Inl (Err ''no such file'')) \<rparr>"

definition world_dotted :: world where
  \<comment> \<open>\<open>WINDIR\<close> is \<open>C:\Program Files\\<close> followed by \<open>U+0130\<close>, the bytes \<open>C4 B0\<close>\<close>
  "world_dotted =
     \<lparr> Run = (\<lambda>c. Inl (Err ''no shell'')), Stat = (\<lambda>_. True),
       Environ = [''WINDIR='' @ win ''C:|Program Files|'' @ [CHR 0xC4, CHR 0xB0]],
       Getenv = (\<lambda>n. if n = ''WINDIR'' then win ''C:|Program Files|'' @ [CHR 0xC4, CHR 0xB0]
                       else []),
       StoredConfig = \<lparr> JunctionFolder = win ''C:|l'', MaxBackups = 10, AutoBackup = True,
                        HotPaths = [] \<rparr>,
       EnsureBackupDirFails = False, ReadBackupFile = (\<lambda>_. Inl (Err ''no such file'')) \<rparr>"
section \<open>PATHEXT: the optimized list\<close>

lemma indexOf_ge: "indexOf slice item \<ge> -1"
  by (induction slice) (auto simp: Let_def)

lemma contains_iff: "contains slice item \<longleftrightarrow> item \<in> set slice"
  unfolding contains_def
  by (induction slice) (auto simp: Let_def)

lemma optimalLoop_eq:
  "optimalLoop keepAll current xs (optimized, added) =
     (optimized @ filter (\<lambda>e. e \<in> set current \<and> (keepAll \<or> e \<notin> set RemovableExtensions)) xs,
      \<lambda>e. added e \<or> (e \<in> set xs \<and> e \<in> set current \<and> (keepAll \<or> e \<notin> set RemovableExtensions)))"
  by (induction xs arbitrary: optimized added) (auto simp: contains_iff fun_eq_iff)

lemma remainingLoop_eq:
  "remainingLoop keepAll added xs optimized =
     optimized @ filter (\<lambda>e. \<not> added e \<and> (keepAll \<or> e \<notin> set RemovableExtensions)) xs"
  by (induction xs arbitrary: optimized) (auto simp: contains_iff)

lemma Removable_sub: "e \<in> set RemovableExtensions \<Longrightarrow> e \<in> set OptimalOrder"
  by (auto simp: RemovableExtensions_def OptimalOrder_def)

text \<open>
  Claim C8. \<open>OptimizePathExt\<close> walks the template \<open>OptimalOrder\<close> and keeps the
  extensions that occur in the current list (dropping the rarely used ones unless
  \<open>keepAll\<close>), then appends the current extensions the template does not cover under
  the same filter; \<open>Changed\<close> is the inequality of the two joined strings. When the
  current list is \<open>[.CMD, .EXE, .BAT]\<close> and \<open>keepAll\<close> holds, the result starts with
  \<open>.EXE\<close> and \<open>Changed\<close> is true.
\<close>

theorem OptimizePathExt_template:
  "Optimized_x (OptimizePathExt w keepAll) =
      filter (\<lambda>ext. ext \<in> set (ParsePathExt w []) \<and> (keepAll \<or> ext \<notin> set RemovableExtensions)) OptimalOrder
      @ filter (\<lambda>ext. ext \<notin> set OptimalOrder \<and> (keepAll \<or> ext \<notin> set RemovableExtensions)) (ParsePathExt w [])
   \<and> Original_x (OptimizePathExt w keepAll) = Join (ParsePathExt w []) '';''
   \<and> OptimizedString (OptimizePathExt w keepAll) = Join (Optimized_x (OptimizePathExt w keepAll)) '';''
   \<and> Changed (OptimizePathExt w keepAll) =
        (Original_x (OptimizePathExt w keepAll) \<noteq> OptimizedString (OptimizePathExt w keepAll))
   \<and> (ParsePathExt w [] = [''.CMD'', ''.EXE'', ''.BAT''] \<and> keepAll \<longrightarrow>
        Optimized_x (OptimizePathExt w keepAll) = [''.EXE'', ''.CMD'', ''.BAT'']
      \<and> hd (Optimized_x (OptimizePathExt w keepAll)) = ''.EXE''
      \<and> Changed (OptimizePathExt w keepAll))"
proof -
  let ?cur = "ParsePathExt w []"
  let ?P = "\<lambda>e. keepAll \<or> e \<notin> set RemovableExtensions"
  have opt: "Optimized_x (OptimizePathExt w keepAll) =
      filter (\<lambda>ext. ext \<in> set ?cur \<and> ?P ext) OptimalOrder
      @ filter (\<lambda>ext. ext \<notin> set OptimalOrder \<and> ?P ext) ?cur"
    unfolding OptimizePathExt_def Let_def optimalLoop_eq remainingLoop_eq
    by (auto intro!: filter_cong)
  have rest: "Original_x (OptimizePathExt w keepAll) = Join ?cur '';''"
    "OptimizedString (OptimizePathExt w keepAll) = Join (Optimized_x (OptimizePathExt w keepAll)) '';''"
    "Changed (OptimizePathExt w keepAll) =
        (Original_x (OptimizePathExt w keepAll) \<noteq> OptimizedString (OptimizePathExt w keepAll))"
    unfolding OptimizePathExt_def Let_def by (simp_all add: split_def)
  have ex: "Optimized_x (OptimizePathExt w keepAll) = [''.EXE'', ''.CMD'', ''.BAT'']"
    if "?cur = [''.CMD'', ''.EXE'', ''.BAT'']" "keepAll"
    unfolding opt using that by (simp add: OptimalOrder_def)
  have chg: "Changed (OptimizePathExt w keepAll)"
    if "?cur = [''.CMD'', ''.EXE'', ''.BAT'']" "keepAll"
    unfolding rest ex[OF that] using that by simp
  have hd: "hd (Optimized_x (OptimizePathExt w keepAll)) = ''.EXE''"
    if "?cur = [''.CMD'', ''.EXE'', ''.BAT'']" "keepAll"
    unfolding ex[OF that] by simp
  from opt rest ex chg hd show ?thesis by blast
qed

lemma ParsePathExt_world_pathext: "ParsePathExt world_pathext [] = [''.CMD'', ''.EXE'', ''.BAT'']"
  by (simp add: ParsePathExt_def GetCurrentPathExt_def RunPowerShell_def world_pathext_def TrimSpace_def ToUpper_def upperByte_def isSpace_def)

theorem OptimizePathExt_template_witness:
  "ParsePathExt world_pathext [] = [''.CMD'', ''.EXE'', ''.BAT'']
   \<and> Optimized_x (OptimizePathExt world_pathext True) = [''.EXE'', ''.CMD'', ''.BAT'']
   \<and> hd (Optimized_x (OptimizePathExt world_pathext True)) = ''.EXE''
   \<and> Changed (OptimizePathExt world_pathext True)"
proof -
  have h: "ParsePathExt world_pathext [] = [''.CMD'', ''.EXE'', ''.BAT''] \<and> True"
    using ParsePathExt_world_pathext by simp
  from OptimizePathExt_template [of world_pathext True]
  have "ParsePathExt world_pathext [] = [''.CMD'', ''.EXE'', ''.BAT''] \<and> True \<longrightarrow>
        Optimized_x (OptimizePathExt world_pathext True) = [''.EXE'', ''.CMD'', ''.BAT'']
      \<and> hd (Optimized_x (OptimizePathExt world_pathext True)) = ''.EXE''
      \<and> Changed (OptimizePathExt world_pathext True)"
    by blast
  with h show ?thesis by blast
qed

section \<open>What applyHotPaths returns\<close>

lemma buildHotPathsSet_None:
  "buildHotPathsSet i hps m n = None \<longleftrightarrow> m n = None \<and> n \<notin> NormalizePath ` set hps"
  by (induction hps arbitrary: i m) auto

lemma buildHotPathsSet_notin:
  "n \<notin> NormalizePath ` set hps \<Longrightarrow> buildHotPathsSet i hps m n = m n"
  by (induction hps arbitrary: i m) auto

lemma buildHotPathsSet_Some:
  "n \<in> NormalizePath ` set hps \<Longrightarrow>
   \<exists>j < length hps. buildHotPathsSet i hps m n = Some (i + j) \<and> NormalizePath (hps ! j) = n
       \<and> (\<forall>k. j < k \<and> k < length hps \<longrightarrow> NormalizePath (hps ! k) \<noteq> n)"
proof (induction hps arbitrary: i m)
  case Nil
  then show ?case by simp
next
  case (Cons hp hps)
  show ?case
  proof (cases "n \<in> NormalizePath ` set hps")
    case True
    from Cons.IH[OF True, of "i + 1" "m(NormalizePath hp \<mapsto> i)"]
    obtain j where j: "j < length hps"
      "buildHotPathsSet (i + 1) hps (m(NormalizePath hp \<mapsto> i)) n = Some (i + 1 + j)"
      "NormalizePath (hps ! j) = n"
      "\<forall>k. j < k \<and> k < length hps \<longrightarrow> NormalizePath (hps ! k) \<noteq> n"
      by blast
    have "\<forall>k. Suc j < k \<and> k < length (hp # hps) \<longrightarrow> NormalizePath ((hp # hps) ! k) \<noteq> n"
    proof (intro allI impI)
      fix k assume "Suc j < k \<and> k < length (hp # hps)"
      then obtain k' where "k = Suc k'" "j < k'" "k' < length hps"
        by (cases k) auto
      with j(4) show "NormalizePath ((hp # hps) ! k) \<noteq> n" by simp
    qed
    with j show ?thesis
      by (intro exI[of _ "Suc j"]) simp
  next
    case False
    with Cons.prems have n: "n = NormalizePath hp" by auto
    have "\<forall>k. 0 < k \<and> k < length (hp # hps) \<longrightarrow> NormalizePath ((hp # hps) ! k) \<noteq> n"
    proof (intro allI impI)
      fix k assume "0 < k \<and> k < length (hp # hps)"
      then obtain k' where "k = Suc k'" "k' < length hps"
        by (cases k) auto
      with False show "NormalizePath ((hp # hps) ! k) \<noteq> n" by auto
    qed
    with False n show ?thesis
      by (intro exI[of _ 0]) (simp add: buildHotPathsSet_notin)
  qed
qed

lemma buildHotPathsSet_index:
  assumes "buildHotPathsSet 0 hps Map.empty n = Some i"
  shows "i < length hps \<and> NormalizePath (hps ! i) = n
       \<and> (\<forall>k. i < k \<and> k < length hps \<longrightarrow> NormalizePath (hps ! k) \<noteq> n)"
proof -
  have "n \<in> NormalizePath ` set hps"
    using assms buildHotPathsSet_None[of 0 hps Map.empty n] by auto
  from buildHotPathsSet_Some[OF this, of 0 Map.empty] assms show ?thesis by auto
qed

lemma buildHotPathsSet_last:
  assumes "i < length hps"
    and "\<forall>k. i < k \<and> k < length hps \<longrightarrow> NormalizePath (hps ! k) \<noteq> NormalizePath (hps ! i)"
  shows "buildHotPathsSet 0 hps Map.empty (NormalizePath (hps ! i)) = Some i"
proof -
  have "NormalizePath (hps ! i) \<in> NormalizePath ` set hps" using assms(1) by simp
  from buildHotPathsSet_Some[OF this, of 0 Map.empty]
  obtain j where j: "j < length hps"
    "buildHotPathsSet 0 hps Map.empty (NormalizePath (hps ! i)) = Some j"
    "NormalizePath (hps ! j) = NormalizePath (hps ! i)"
    "\<forall>k. j < k \<and> k < length hps \<longrightarrow> NormalizePath (hps ! k) \<noteq> NormalizePath (hps ! i)"
    by auto
  have "j = i"
  proof (rule ccontr)
    assume "j \<noteq> i"
    then consider "j < i" | "i < j" by linarith
    then show False
    proof cases
      case 1 with j(4) assms(1) show False by auto
    next
      case 2 with assms(2) j(1,3) show False by auto
    qed
  qed
  with j(2) show ?thesis by simp
qed

lemma last_index_remdups:
  "map (\<lambda>j. ns ! j)
     (filter (\<lambda>j. (\<forall>k. j < k \<and> k < length ns \<longrightarrow> ns ! k \<noteq> ns ! j) \<and> Q (ns ! j)) [0..<length ns])
   = filter Q (remdups ns)"
proof (induction ns)
  case Nil
  then show ?case by simp
next
  case (Cons x xs)
  have upt: "[0..<length (x # xs)] = 0 # map Suc [0..<length xs]"
    by (simp add: upt_conv_Cons map_Suc_upt del: upt_Suc)
  have c0: "(\<forall>k. 0 < k \<and> k < length (x # xs) \<longrightarrow> (x # xs) ! k \<noteq> (x # xs) ! 0) \<longleftrightarrow> x \<notin> set xs"
  proof
    assume a: "\<forall>k. 0 < k \<and> k < length (x # xs) \<longrightarrow> (x # xs) ! k \<noteq> (x # xs) ! 0"
    show "x \<notin> set xs"
    proof
      assume "x \<in> set xs"
      then obtain k where "k < length xs" "xs ! k = x" by (auto simp: in_set_conv_nth)
      with a[rule_format, of "Suc k"] show False by simp
    qed
  next
    assume a: "x \<notin> set xs"
    show "\<forall>k. 0 < k \<and> k < length (x # xs) \<longrightarrow> (x # xs) ! k \<noteq> (x # xs) ! 0"
    proof (intro allI impI)
      fix k assume "0 < k \<and> k < length (x # xs)"
      then obtain k' where "k = Suc k'" "k' < length xs" by (cases k) auto
      with a show "(x # xs) ! k \<noteq> (x # xs) ! 0" by auto
    qed
  qed
  have cS: "(\<forall>k. Suc j < k \<and> k < length (x # xs) \<longrightarrow> (x # xs) ! k \<noteq> (x # xs) ! Suc j)
       \<longleftrightarrow> (\<forall>k. j < k \<and> k < length xs \<longrightarrow> xs ! k \<noteq> xs ! j)" for j
  proof
    assume a: "\<forall>k. Suc j < k \<and> k < length (x # xs) \<longrightarrow> (x # xs) ! k \<noteq> (x # xs) ! Suc j"
    show "\<forall>k. j < k \<and> k < length xs \<longrightarrow> xs ! k \<noteq> xs ! j"
    proof (intro allI impI)
      fix k assume "j < k \<and> k < length xs"
      with a[rule_format, of "Suc k"] show "xs ! k \<noteq> xs ! j" by simp
    qed
  next
    assume a: "\<forall>k. j < k \<and> k < length xs \<longrightarrow> xs ! k \<noteq> xs ! j"
    show "\<forall>k. Suc j < k \<and> k < length (x # xs) \<longrightarrow> (x # xs) ! k \<noteq> (x # xs) ! Suc j"
    proof (intro allI impI)
      fix k assume "Suc j < k \<and> k < length (x # xs)"
      then obtain k' where "k = Suc k'" "j < k'" "k' < length xs" by (cases k) auto
      with a show "(x # xs) ! k \<noteq> (x # xs) ! Suc j" by simp
    qed
  qed
  define P where "P = (\<lambda>j. (\<forall>k. j < k \<and> k < length (x # xs) \<longrightarrow> (x # xs) ! k \<noteq> (x # xs) ! j)
                         \<and> Q ((x # xs) ! j))"
  define P' where "P' = (\<lambda>j. (\<forall>k. j < k \<and> k < length xs \<longrightarrow> xs ! k \<noteq> xs ! j) \<and> Q (xs ! j))"
  have P0: "P 0 \<longleftrightarrow> x \<notin> set xs \<and> Q x"
    unfolding P_def c0 by simp
  have PS: "P (Suc j) = P' j" for j
    unfolding P_def P'_def cS by simp
  have "map (\<lambda>j. (x # xs) ! j) (filter P [0..<length (x # xs)])
      = (if P 0 then [x] else []) @ map (\<lambda>j. xs ! j) (filter P' [0..<length xs])"
    unfolding upt by (simp add: filter_map o_def PS)
  also have "map (\<lambda>j. xs ! j) (filter P' [0..<length xs]) = filter Q (remdups xs)"
    unfolding P'_def by (rule Cons.IH)
  finally show ?case
    unfolding P_def[symmetric] by (auto simp: P0)
qed

lemma separateLoop_spec:
  assumes "length hot0 = length found0"
  shows "separateLoop M es (hot0, found0, reg0) = (hot, found, regular) \<Longrightarrow>
     regular = reg0 @ filter (\<lambda>e. M (NormalizePath e) = None) es
   \<and> length hot = length hot0 \<and> length found = length found0
   \<and> (\<forall>i < length hot0.
         found ! i = (found0 ! i \<or> (\<exists>e \<in> set es. M (NormalizePath e) = Some i))
       \<and> hot ! i = (if \<exists>e \<in> set es. M (NormalizePath e) = Some i
                    then last (filter (\<lambda>e. M (NormalizePath e) = Some i) es)
                    else hot0 ! i))"
  using assms
proof (induction es arbitrary: hot0 found0 reg0)
  case Nil
  then show ?case by auto
next
  case (Cons e es)
  show ?case
  proof (cases "M (NormalizePath e)")
    case None
    with Cons.prems have "separateLoop M es (hot0, found0, reg0 @ [e]) = (hot, found, regular)"
      by simp
    from Cons.IH[OF this Cons.prems(2)] None show ?thesis
      by auto
  next
    case (Some idx)
    with Cons.prems have
      "separateLoop M es (hot0[idx := e], found0[idx := True], reg0) = (hot, found, regular)"
      by simp
    from Cons.IH[OF this] Cons.prems(2)
    have ih: "regular = reg0 @ filter (\<lambda>e. M (NormalizePath e) = None) es"
      "length hot = length hot0" "length found = length found0"
      "\<forall>i < length hot0.
         found ! i = ((found0[idx := True]) ! i \<or> (\<exists>e \<in> set es. M (NormalizePath e) = Some i))
       \<and> hot ! i = (if \<exists>e \<in> set es. M (NormalizePath e) = Some i
                    then last (filter (\<lambda>e. M (NormalizePath e) = Some i) es)
                    else (hot0[idx := e]) ! i)"
      by auto
    have "found ! i = (found0 ! i \<or> (\<exists>e' \<in> set (e # es). M (NormalizePath e') = Some i))
       \<and> hot ! i = (if \<exists>e' \<in> set (e # es). M (NormalizePath e') = Some i
                    then last (filter (\<lambda>e'. M (NormalizePath e') = Some i) (e # es))
                    else hot0 ! i)" if i: "i < length hot0" for i
    proof (cases "i = idx")
      case True
      with ih(4)[rule_format, OF i] i Cons.prems(2) Some show ?thesis
        by (auto simp: filter_empty_conv)
    next
      case False
      with ih(4)[rule_format, OF i] i Cons.prems(2) Some show ?thesis
        by auto
    qed
    with ih Some show ?thesis by simp
  qed
qed

lemma collectHot_eq:
  "length hot = length found \<Longrightarrow>
   collectHot hot found = map (\<lambda>i. hot ! i) (filter (\<lambda>i. found ! i) [0..<length hot])"
proof (induction hot found rule: collectHot.induct)
  case (1 h hot f found)
  have upt: "[0..<length (h # hot)] = 0 # map Suc [0..<length hot]"
    by (simp add: upt_conv_Cons map_Suc_upt del: upt_Suc)
  from 1 show ?case
    unfolding upt by (simp add: filter_map o_def)
qed simp_all

lemma applyHotPaths_eq:
  "applyHotPaths entries hotPaths =
     map (\<lambda>n. last (filter (\<lambda>e. NormalizePath e = n) entries))
       (filter (\<lambda>n. n \<in> NormalizePath ` set entries) (remdups (map NormalizePath hotPaths)))
     @ filter (\<lambda>e. NormalizePath e \<notin> NormalizePath ` set hotPaths) entries"
proof (cases "hotPaths = []")
  case True
  then show ?thesis by (simp add: applyHotPaths_def)
next
  case False
  define M where "M = buildHotPathsSet 0 hotPaths Map.empty"
  define ns where "ns = map NormalizePath hotPaths"
  define len where "len = length hotPaths"
  obtain hot found regular where sl:
    "separateLoop M entries (replicate len [], replicate len False, []) = (hot, found, regular)"
    by (metis prod_cases3)
  from separateLoop_spec[OF _ sl]
  have reg: "regular = filter (\<lambda>e. M (NormalizePath e) = None) entries"
    and lens: "length hot = len" "length found = len"
    and fnd: "\<And>i. i < len \<Longrightarrow> found ! i = (\<exists>e \<in> set entries. M (NormalizePath e) = Some i)"
    and hot: "\<And>i. i < len \<Longrightarrow> \<exists>e \<in> set entries. M (NormalizePath e) = Some i \<Longrightarrow>
                hot ! i = last (filter (\<lambda>e. M (NormalizePath e) = Some i) entries)"
    by auto
  have reg': "regular = filter (\<lambda>e. NormalizePath e \<notin> NormalizePath ` set hotPaths) entries"
    unfolding reg M_def by (simp add: buildHotPathsSet_None)
  let ?lastc = "\<lambda>i. \<forall>k. i < k \<and> k < length ns \<longrightarrow> ns ! k \<noteq> ns ! i"
  have Mi: "M (NormalizePath e) = Some i \<longleftrightarrow> ?lastc i \<and> NormalizePath e = ns ! i"
    if "i < len" for e i
  proof
    assume "M (NormalizePath e) = Some i"
    from buildHotPathsSet_index[OF this[unfolded M_def]] show "?lastc i \<and> NormalizePath e = ns ! i"
      by (auto simp: ns_def)
  next
    assume a: "?lastc i \<and> NormalizePath e = ns ! i"
    with that have "\<forall>k. i < k \<and> k < length hotPaths \<longrightarrow>
        NormalizePath (hotPaths ! k) \<noteq> NormalizePath (hotPaths ! i)"
      by (auto simp: ns_def len_def)
    from buildHotPathsSet_last[OF that[unfolded len_def] this] a that
    show "M (NormalizePath e) = Some i"
      by (simp add: M_def ns_def len_def)
  qed
  let ?Q = "\<lambda>n. n \<in> NormalizePath ` set entries"
  have fnd': "found ! i = (?lastc i \<and> ?Q (ns ! i))" if "i < len" for i
    unfolding fnd[OF that] Mi[OF that] image_iff by metis
  have hot': "hot ! i = last (filter (\<lambda>e. NormalizePath e = ns ! i) entries)"
    if "i < len" "?lastc i \<and> ?Q (ns ! i)" for i
  proof -
    have ex: "\<exists>e \<in> set entries. M (NormalizePath e) = Some i"
      using that fnd fnd' by blast
    have eq: "(M (NormalizePath e) = Some i) = (NormalizePath e = ns ! i)" for e
      using Mi[OF that(1), of e] that(2) by blast
    have "filter (\<lambda>e. M (NormalizePath e) = Some i) entries
        = filter (\<lambda>e. NormalizePath e = ns ! i) entries"
      by (simp add: eq)
    with hot[OF that(1) ex] show ?thesis by simp
  qed
  have "collectHot hot found = map (\<lambda>i. hot ! i) (filter (\<lambda>i. found ! i) [0..<len])"
    using collectHot_eq[of hot found] lens by simp
  also have "filter (\<lambda>i. found ! i) [0..<len] = filter (\<lambda>i. ?lastc i \<and> ?Q (ns ! i)) [0..<len]"
    by (intro filter_cong) (auto simp: fnd')
  also have "map (\<lambda>i. hot ! i) \<dots>
      = map (\<lambda>i. last (filter (\<lambda>e. NormalizePath e = ns ! i) entries))
          (filter (\<lambda>i. ?lastc i \<and> ?Q (ns ! i)) [0..<len])"
    by (intro map_cong) (auto simp: hot')
  also have "\<dots> = map (\<lambda>n. last (filter (\<lambda>e. NormalizePath e = n) entries))
          (map (\<lambda>i. ns ! i) (filter (\<lambda>i. ?lastc i \<and> ?Q (ns ! i)) [0..<length ns]))"
    by (simp add: o_def ns_def len_def)
  also have "map (\<lambda>i. ns ! i) (filter (\<lambda>i. ?lastc i \<and> ?Q (ns ! i)) [0..<length ns])
      = filter ?Q (remdups ns)"
    by (rule last_index_remdups)
  finally have ch: "collectHot hot found =
      map (\<lambda>n. last (filter (\<lambda>e. NormalizePath e = n) entries)) (filter ?Q (remdups ns))" .
  have "applyHotPaths entries hotPaths = collectHot hot found @ regular"
    using False sl by (simp add: applyHotPaths_def M_def len_def)
  then show ?thesis
    unfolding ch reg' ns_def by simp
qed

text \<open>
  Claim C3. \<open>applyHotPaths\<close> does not put every matched entry first: two entries
  that normalize to the same hot path are written to the same slot of \<open>hot\<close>, and the
  later one overwrites the earlier. For the entries \<open>C:\A\<close>, \<open>c:\a\\<close>, \<open>C:\B\<close> and
  the hot path \<open>C:/A\<close>, which the first two entries match, the result has two entries:
  \<open>C:\A\<close> is gone.
\<close>

theorem applyHotPaths_drops_entry:
  "applyHotPaths [win ''C:|A'', win ''c:|a|'', win ''C:|B''] [''C:/A'']
     = [win ''c:|a|'', win ''C:|B'']
   \<and> NormalizePath (win ''C:|A'') = NormalizePath ''C:/A''
   \<and> NormalizePath (win ''c:|a|'') = NormalizePath ''C:/A''
   \<and> NormalizePath (win ''C:|B'') \<noteq> NormalizePath ''C:/A''"
  by code_simp

section \<open>The two optimizers agree; the option ReorderPaths\<close>

lemma tryShorten_eq:
  "tryShorten w p current =
     (if ShortenPaths (opts p) \<and> \<not> Contains current (CHR ''%'') \<and> snd (ToShortPath w current)
          \<and> length (fst (ToShortPath w current)) < length current
      then (fst (ToShortPath w current),
            p\<lparr> result := recordShortened current (fst (ToShortPath w current)) (result p) \<rparr>)
      else (current, p))"
  by (auto simp: tryShorten_def split: prod.splits)

lemma trySubstituteVars_eq:
  "trySubstituteVars w p current =
     (if SubstituteVars (opts p) \<and> \<not> Contains current (CHR ''%'')
      then (case SubstituteEnvVars w current of
              None \<Rightarrow> None
            | Some s \<Rightarrow>
                if snd s \<and> length (fst s) < length current
                then Some (fst s, p\<lparr> result := recordVariable current (fst s) (result p) \<rparr>)
                else Some (current, p))
      else Some (current, p))"
  by (auto simp: trySubstituteVars_def split: prod.splits option.splits)

lemma tryShortenSuffix_eq:
  "tryShortenSuffix w p current =
     (if \<not> ShortenPaths (opts p) then Some (current, p)
      else (case ShortenSuffix w current of
              None \<Rightarrow> None
            | Some ss \<Rightarrow>
                if snd ss \<and> length (fst ss) < length current
                then Some (fst ss, p\<lparr> result := recordShortened current (fst ss) (result p) \<rparr>)
                else Some (current, p)))"
  by (auto simp: tryShortenSuffix_def split: prod.splits option.splits)

lemma tryShorten_frame:
  "opts (snd (tryShorten w p e)) = opts p" "seen (snd (tryShorten w p e)) = seen p"
  by (auto simp: tryShorten_def split: prod.splits)

lemma inline_shorten_eq:
  assumes "opts p = os" "result p = r"
  shows "(if ShortenPaths os \<and> \<not> Contains entry (CHR ''%'')
          then (case ToShortPath w entry of (short, shortened) \<Rightarrow>
                  if shortened \<and> length short < length entry
                  then (recordShortened entry short r, short)
                  else (r, entry))
          else (r, entry))
         = (result (snd (tryShorten w p entry)), fst (tryShorten w p entry))"
  using assms by (auto simp: tryShorten_def split: prod.splits)

lemma if_case_flat:
  "(if a then (case S of (x, y) \<Rightarrow> if y \<and> P x then F x else X) else X)
   = (if a \<and> snd S \<and> P (fst S) then F (fst S) else X)"
  by (cases S) auto

lemma case_opt_flat:
  "(case SS of None \<Rightarrow> None | Some (ss, sh) \<Rightarrow> if sh \<and> Q ss then G ss else Y)
   = (case SS of None \<Rightarrow> None | Some z \<Rightarrow> if snd z \<and> Q (fst z) then G (fst z) else Y)"
  by (auto split: option.splits)

lemma subst_sim:
  assumes o: "opts p = os" and r: "result p = r" and s: "RemoveDuplicates os \<longrightarrow> seen p = sn"
  shows "sim os optimized
     (case trySubstituteVars w p current of
        None \<Rightarrow> None
      | Some (c2, p4) \<Rightarrow>
          if c2 \<noteq> current
          then (case tryShortenSuffix w p4 c2 of
                  None \<Rightarrow> None
                | Some (c3, p5) \<Rightarrow> Some (Some c3, p5))
          else Some (Some c2, p4))
     (if SubstituteVars os \<and> \<not> Contains current (CHR ''%'')
      then
        (case SubstituteEnvVars w current of
           None \<Rightarrow> None
         | Some (subst, substituted) \<Rightarrow>
             if substituted \<and> length subst < length current
             then
                (if ShortenPaths os
                 then
                   (case ShortenSuffix w subst of
                      None \<Rightarrow> None
                    | Some (shortSuffix, shortened) \<Rightarrow>
                        if shortened \<and> length shortSuffix < length subst
                        then Some (recordShortened subst shortSuffix (recordVariable current subst r), sn,
                                   optimized @ [shortSuffix])
                        else Some (recordVariable current subst r, sn, optimized @ [subst]))
                 else Some (recordVariable current subst r, sn, optimized @ [subst]))
             else Some (r, sn, optimized @ [current]))
      else Some (r, sn, optimized @ [current]))"
proof (cases "SubstituteVars os \<and> \<not> Contains current (CHR ''%'')")
  case False
  then have f: "(SubstituteVars os \<and> \<not> Contains current (CHR ''%'')) = False"
    by simp
  show ?thesis
    unfolding trySubstituteVars_eq o f using o r s by (simp add: sim_def)
next
  case on: True
  show ?thesis
  proof (cases "SubstituteEnvVars w current")
    case None
    then show ?thesis
      unfolding trySubstituteVars_eq o using on by (simp add: sim_def)
  next
    case (Some S)
    obtain subst substituted where S: "S = (subst, substituted)"
      by (cases S)
    define SS where "SS = ShortenSuffix w subst"
    have ne: "length subst < length current \<longrightarrow> subst \<noteq> current"
      by auto
    show ?thesis
      unfolding trySubstituteVars_eq tryShortenSuffix_eq o Some S option.case prod.case
        fst_conv snd_conv case_opt_flat
      unfolding SS_def[symmetric]
      using on o r s ne
      by (cases substituted; cases "length subst < length current"; cases "ShortenPaths os";
          cases SS; (cases "snd (the SS)")?; (cases "length (fst (the SS)) < length subst")?;
          simp add: sim_def flip: SS_def)
  qed
qed

lemma step_sim:
  assumes o: "opts p = os" and s: "RemoveDuplicates os \<longrightarrow> seen p = sn"
  shows "sim os optimized (processEntry w p entry) (inlineBody w os (result p, sn, optimized) entry)"
proof (cases "RemoveDuplicates os \<and> seen p (NormalizePath entry)")
  case True
  then show ?thesis using o s
    by (simp add: sim_def processEntry_def inlineBody_def isDuplicate_def)
next
  case nodup: False
  define p1 where "p1 = (if RemoveDuplicates os then p\<lparr> seen := (seen p)(NormalizePath entry := True) \<rparr> else p)"
  have dupeq: "isDuplicate p entry (NormalizePath entry) = (False, p1)"
    using nodup o by (simp add: isDuplicate_def p1_def)
  have p1: "opts p1 = os" "result p1 = result p"
    "RemoveDuplicates os \<longrightarrow> seen p1 = sn(NormalizePath entry := True)"
    using o s by (auto simp: p1_def)
  have nd: "(RemoveDuplicates os \<and> sn (NormalizePath entry)) = False"
    using nodup s by auto
  show ?thesis
  proof (cases "RemoveDeadPaths os \<and> \<not> Contains entry (CHR ''%'') \<and> \<not> PathExists w entry")
    case True
    then show ?thesis using p1
      by (simp add: nd sim_def processEntry_def inlineBody_def dupeq isDeadPath_def Let_def)
  next
    case nodead: False
    have deadeq: "isDeadPath w p1 entry = (False, p1)"
      using nodead p1 by (auto simp: isDeadPath_def)
    have nodead': "(RemoveDeadPaths os \<and> \<not> Contains entry (CHR ''%'') \<and> \<not> PathExists w entry) = False"
      using nodead by simp
    define p3 where "p3 = snd (tryShorten w p1 entry)"
    define cur where "cur = fst (tryShorten w p1 entry)"
    have ts: "tryShorten w p1 entry = (cur, p3)" by (simp add: p3_def cur_def)
    have p3: "opts p3 = os" "RemoveDuplicates os \<longrightarrow> seen p3 = sn(NormalizePath entry := True)"
      using p1 by (simp_all add: p3_def tryShorten_frame)
    note ie = inline_shorten_eq[OF p1(1) p1(2), of entry w, folded p3_def cur_def]
    show ?thesis
      unfolding processEntry_def inlineBody_def Let_def dupeq deadeq ts prod.case nd nodead' ie
        if_False
      by (rule subst_sim[OF p3(1) refl p3(2)])
  qed
qed

lemma loop_sim:
  assumes "opts p = os" "RemoveDuplicates os \<longrightarrow> seen p = sn"
  shows "map_option (\<lambda>(p', opt). (result p', opt)) (processLoop w entries (p, optimized))
       = map_option (\<lambda>(r, sn', opt). (r, opt)) (inlineLoop w os entries (result p, sn, optimized))"
  using assms
proof (induction entries arbitrary: p sn optimized)
  case Nil
  then show ?case by simp
next
  case (Cons entry entries)
  from step_sim[OF Cons.prems, of optimized w entry] show ?case
    using Cons.IH
    by (auto simp: sim_def split: option.splits)
qed

text \<open>
  Claim C10. The inline \<open>OptimizeWithProgress\<close> and the refactored one, which hands
  each entry to \<open>processEntry\<close>, return the same result (change log and metrics
  included) for every PATH string, every choice of options and every world; where one
  gives no result (it panics, or it never returns), neither does the other.
\<close>

theorem inline_and_refactored_optimizer_agree: "OptimizeWithProgress_inline w pathStr os = OptimizeWithProgress w pathStr os"
proof -
  have "map_option (\<lambda>(p', opt). (result p', opt))
          (processLoop w (ParsePath pathStr) (newEntryProcessor os (startResult pathStr), []))
      = map_option (\<lambda>(r, sn', opt). (r, opt))
          (inlineLoop w os (ParsePath pathStr) (startResult pathStr, (\<lambda>_. False), []))"
    using loop_sim[of "newEntryProcessor os (startResult pathStr)" os "\<lambda>_. False" w "ParsePath pathStr" "[]"]
    by (simp add: newEntryProcessor_def)
  then show ?thesis
    unfolding OptimizeWithProgress_inline_def OptimizeWithProgress_def Let_def
    by (auto split: option.splits)
qed


lemma inlineBody_ReorderPaths:
  "inlineBody w (os\<lparr> ReorderPaths := b \<rparr>) st entry = inlineBody w os st entry"
  by (simp add: inlineBody_def Let_def split_def cong del: if_weak_cong
        cong: if_cong option.case_cong)

lemma inlineLoop_ReorderPaths:
  "inlineLoop w (os\<lparr> ReorderPaths := b \<rparr>) entries st = inlineLoop w os entries st"
  by (induction entries arbitrary: st) (simp_all add: inlineBody_ReorderPaths cong: option.case_cong)

lemma processLoop_ReorderPaths:
  "map_option (\<lambda>(p', opt). (result p', opt))
     (processLoop w entries (newEntryProcessor (os\<lparr> ReorderPaths := b \<rparr>) r, []))
   = map_option (\<lambda>(p', opt). (result p', opt))
     (processLoop w entries (newEntryProcessor os r, []))"
proof -
  have a: "opts (newEntryProcessor os' r) = os'"
    "RemoveDuplicates os' \<longrightarrow> seen (newEntryProcessor os' r) = (\<lambda>_. False)"
    "result (newEntryProcessor os' r) = r" for os'
    by (simp_all add: newEntryProcessor_def)
  show ?thesis
    using loop_sim[OF a(1)[of "os\<lparr> ReorderPaths := b \<rparr>"] a(2)[of "os\<lparr> ReorderPaths := b \<rparr>"],
            where w = w and entries = entries and optimized = "[]"]
      loop_sim[OF a(1)[of os] a(2)[of os], where w = w and entries = entries and optimized = "[]"]
    by (simp add: a(3) inlineLoop_ReorderPaths)
qed

text \<open>
  Claim C9. The option \<open>ReorderPaths\<close> has no effect: \<open>Optimize\<close> returns the same
  result with the option set as with the option cleared. (The reordering of hot paths is
  decided in \<open>finishResult\<close> by the stored configuration alone.)
\<close>

theorem ReorderPaths_has_no_effect:
  "Optimize w pathStr (os\<lparr> ReorderPaths := True \<rparr>) = Optimize w pathStr (os\<lparr> ReorderPaths := False \<rparr>)"
proof -
  have "Optimize w pathStr (os\<lparr> ReorderPaths := b \<rparr>) = Optimize w pathStr os" for b
  proof -
    let ?f = "\<lambda>os. processLoop w (ParsePath pathStr) (newEntryProcessor os (startResult pathStr), [])"
    have "map_option (\<lambda>(p', opt). (result p', opt)) (?f (os\<lparr> ReorderPaths := b \<rparr>))
        = map_option (\<lambda>(p', opt). (result p', opt)) (?f os)"
      by (rule processLoop_ReorderPaths)
    then show ?thesis
      unfolding Optimize_def OptimizeWithProgress_def Let_def
      by (cases "?f (os\<lparr> ReorderPaths := b \<rparr>)"; cases "?f os") auto
  qed
  then show ?thesis by simp
qed

section \<open>Removing entries never lengthens the PATH\<close>

lemma length_Join:
  "length (Join xs sep) = sum_list (map length xs) + (length xs - 1) * length sep"
  by (induction xs sep rule: Join.induct) (simp_all add: algebra_simps)

lemma joined_length_mono:
  assumes "mset A \<subseteq># mset B"
  shows "sum_list (map length A) + (length A - 1) \<le> sum_list (map length B) + (length B - 1)"
proof -
  from assms obtain C where C: "mset B = mset A + C"
    by (auto simp: mset_subset_eq_exists_conv)
  have "sum_list (map length B) = sum_mset (image_mset length (mset B))"
    by (metis mset_map sum_mset_sum_list)
  also have "\<dots> = sum_mset (image_mset length (mset A)) + sum_mset (image_mset length C)"
    by (simp add: C)
  also have "sum_mset (image_mset length (mset A)) = sum_list (map length A)"
    by (metis mset_map sum_mset_sum_list)
  finally have s: "sum_list (map length A) \<le> sum_list (map length B)" by simp
  have "length A \<le> length B"
    using size_mset_mono[OF assms] by simp
  with s show ?thesis by linarith
qed

lemma Split_length:
  "Split s c \<noteq> [] \<and> sum_list (map length (Split s c)) + (length (Split s c) - 1) = length s"
  by (induction s) (auto split: list.splits)

lemma length_TrimSpace: "length (TrimSpace s) \<le> length s"
proof -
  have "length (TrimSpace s) \<le> length (dropWhile isSpace s)"
    unfolding TrimSpace_def using length_dropWhile_le[of isSpace "rev (dropWhile isSpace s)"] by simp
  also have "\<dots> \<le> length s" by (rule length_dropWhile_le)
  finally show ?thesis .
qed

lemma ParsePath_length:
  "sum_list (map length (ParsePath pathStr)) + (length (ParsePath pathStr) - 1) \<le> length pathStr"
proof (cases "pathStr = []")
  case True
  then show ?thesis by (simp add: ParsePath_def)
next
  case False
  let ?segs = "Split pathStr (CHR '';'')"
  have "mset (ParsePath pathStr) \<subseteq># mset (map TrimSpace ?segs)"
    using False by (simp add: ParsePath_def)
  from joined_length_mono[OF this]
  have "sum_list (map length (ParsePath pathStr)) + (length (ParsePath pathStr) - 1)
      \<le> sum_list (map length (map TrimSpace ?segs)) + (length ?segs - 1)"
    by simp
  also have "sum_list (map length (map TrimSpace ?segs)) \<le> sum_list (map length ?segs)"
    unfolding map_map o_def by (rule sum_list_mono) (rule length_TrimSpace)
  finally show ?thesis
    using Split_length[of pathStr "CHR '';''"] by linarith
qed

lemma applyHotPaths_mset: "mset (applyHotPaths entries hotPaths) \<subseteq># mset entries"
proof -
  let ?H = "\<lambda>e. NormalizePath e \<in> NormalizePath ` set hotPaths"
  let ?ns = "filter (\<lambda>n. n \<in> NormalizePath ` set entries) (remdups (map NormalizePath hotPaths))"
  let ?pick = "\<lambda>n. last (filter (\<lambda>e. NormalizePath e = n) entries)"
  have pick: "?pick n \<in> set entries \<and> NormalizePath (?pick n) = n" if "n \<in> set ?ns" for n
  proof -
    from that have "filter (\<lambda>e. NormalizePath e = n) entries \<noteq> []"
      by (auto simp: filter_empty_conv)
    from last_in_set[OF this] show ?thesis by auto
  qed
  have "distinct (map NormalizePath (map ?pick ?ns))"
  proof -
    have "map NormalizePath (map ?pick ?ns) = ?ns"
      unfolding map_map o_def by (rule map_idI) (use pick in blast)
    then show ?thesis by simp
  qed
  then have d: "distinct (map ?pick ?ns)"
    using distinct_map[of NormalizePath "map ?pick ?ns"] by blast
  have sub: "set (map ?pick ?ns) \<subseteq> set (filter ?H entries)"
    using pick by auto
  have "mset (map ?pick ?ns) \<subseteq># mset (filter ?H entries)"
  proof (rule mset_subset_eqI)
    fix a
    show "count (mset (map ?pick ?ns)) a \<le> count (mset (filter ?H entries)) a"
    proof (cases "a \<in> set (map ?pick ?ns)")
      case True
      with sub have "a \<in> set (filter ?H entries)" by blast
      then have ge: "1 \<le> count (mset (filter ?H entries)) a"
        by (metis count_greater_eq_one_iff set_mset_mset)
      have o: "count (mset (map ?pick ?ns)) a = 1"
        using d True by (metis distinct_count_atmost_1)
      show ?thesis unfolding o by (rule ge)
    next
      case False
      then have z: "count (mset (map ?pick ?ns)) a = 0"
        by (metis count_eq_zero_iff set_mset_mset)
      show ?thesis unfolding z by (rule le0)
    qed
  qed
  then have "mset (map ?pick ?ns) + mset (filter (\<lambda>e. \<not> ?H e) entries)
      \<subseteq># mset (filter ?H entries) + mset (filter (\<lambda>e. \<not> ?H e) entries)"
    by (rule subset_mset.add_right_mono)
  also have "mset (filter ?H entries) + mset (filter (\<lambda>e. \<not> ?H e) entries) = mset entries"
    by (induction entries) simp_all
  finally show ?thesis
    unfolding applyHotPaths_eq mset_append .
qed

lemma processEntry_removal_only:
  assumes "\<not> ShortenPaths (opts p)" "\<not> SubstituteVars (opts p)"
  shows "\<exists>x p'. processEntry w p entry = Some (x, p') \<and> (x = None \<or> x = Some entry)
           \<and> opts p' = opts p \<and> Original (result p') = Original (result p)"
proof (cases "fst (isDuplicate p entry (NormalizePath entry))")
  case True
  then show ?thesis
    by (auto simp: processEntry_def isDuplicate_def recordDuplicate_def split: if_splits)
next
  case nodup: False
  define p1 where "p1 = snd (isDuplicate p entry (NormalizePath entry))"
  have d: "isDuplicate p entry (NormalizePath entry) = (False, p1)"
    using nodup by (simp add: p1_def prod_eq_iff)
  have p1: "opts p1 = opts p" "Original (result p1) = Original (result p)"
    by (auto simp: p1_def isDuplicate_def recordDuplicate_def)
  show ?thesis
  proof (cases "fst (isDeadPath w p1 entry)")
    case True
    then show ?thesis using p1
      by (auto simp: processEntry_def d isDeadPath_def recordDead_def split: if_splits)
  next
    case False
    then have dd: "isDeadPath w p1 entry = (False, p1)"
      by (auto simp: isDeadPath_def split: if_splits)
    show ?thesis using p1 assms
      by (simp add: processEntry_def d dd tryShorten_def trySubstituteVars_def)
  qed
qed

lemma processLoop_removal_only:
  assumes "\<not> ShortenPaths (opts p)" "\<not> SubstituteVars (opts p)"
  shows "\<exists>p' kept. processLoop w entries (p, optimized) = Some (p', optimized @ kept)
           \<and> mset kept \<subseteq># mset entries
           \<and> Original (result p') = Original (result p)"
  using assms
proof (induction entries arbitrary: p optimized)
  case Nil
  then show ?case by simp
next
  case (Cons entry entries)
  from processEntry_removal_only[OF Cons.prems, of w entry]
  obtain x p1 where x: "processEntry w p entry = Some (x, p1)" "x = None \<or> x = Some entry"
    "opts p1 = opts p" "Original (result p1) = Original (result p)"
    by blast
  from Cons.prems x(3) have o1: "\<not> ShortenPaths (opts p1)" "\<not> SubstituteVars (opts p1)"
    by simp_all
  from x(2) show ?case
  proof
    assume "x = None"
    from Cons.IH[OF o1, of optimized]
    obtain p' kept where k: "processLoop w entries (p1, optimized) = Some (p', optimized @ kept)"
      "mset kept \<subseteq># mset entries" "Original (result p') = Original (result p1)"
      by blast
    have "mset kept \<subseteq># mset (entry # entries)"
      using k(2) by (simp add: subseteq_mset_def le_SucI)
    with k x \<open>x = None\<close> show ?thesis by auto
  next
    assume xs: "x = Some entry"
    from Cons.IH[OF o1, of "optimized @ [entry]"]
    obtain p' kept where k:
      "processLoop w entries (p1, optimized @ [entry]) = Some (p', (optimized @ [entry]) @ kept)"
      "mset kept \<subseteq># mset entries" "Original (result p') = Original (result p1)"
      by blast
    have "mset (entry # kept) \<subseteq># mset (entry # entries)"
      using k(2) by simp
    with k x xs show ?thesis
      by (intro exI[of _ p'] exI[of _ "entry # kept"]) simp
  qed
qed

text \<open>
  Claim C5. With \<open>ShortenPaths\<close> and \<open>SubstituteVars\<close> disabled (so that only the
  removal of duplicates and of dead paths can be enabled), the optimizer returns, and the
  length of the optimized PATH is at most the length of the original one, whatever the
  PATH string, the file system and the configured hot paths are.
\<close>

theorem removal_only_never_longer:
  assumes "\<not> ShortenPaths os" "\<not> SubstituteVars os"
  shows "\<exists>r. OptimizeWithProgress w pathStr os = Some r
           \<and> Length (Optimized r) \<le> Length (Original r)"
proof -
  define p0 where "p0 = newEntryProcessor os (startResult pathStr)"
  have o: "\<not> ShortenPaths (opts p0)" "\<not> SubstituteVars (opts p0)"
    using assms by (simp_all add: p0_def newEntryProcessor_def)
  from processLoop_removal_only[OF o, of w "ParsePath pathStr" "[]"]
  obtain p' kept where k: "processLoop w (ParsePath pathStr) (p0, []) = Some (p', kept)"
    "mset kept \<subseteq># mset (ParsePath pathStr)" "Original (result p') = Original (result p0)"
    by auto
  define final where "final = (if length (HotPaths (LoadConfig w)) > 0
                       then applyHotPaths kept (HotPaths (LoadConfig w)) else kept)"
  have "mset final \<subseteq># mset kept"
    by (simp add: final_def applyHotPaths_mset)
  from this k(2) have "mset final \<subseteq># mset (ParsePath pathStr)"
    by (rule subset_mset.order_trans)
  from joined_length_mono[OF this] ParsePath_length[of pathStr]
  have len: "length (JoinPath final) \<le> length pathStr"
    by (simp add: JoinPath_def length_Join)
  define r where "r = finishResult w (result p') kept"
  have orig: "Length (Original (result p')) = int (length pathStr)"
    using k(3) by (simp add: p0_def newEntryProcessor_def startResult_def)
  have "Length (Optimized r) = int (length (JoinPath final))" "Length (Original r) = int (length pathStr)"
    using orig by (simp_all add: r_def finishResult_def Let_def final_def)
  with len have "Length (Optimized r) \<le> Length (Original r)" by simp
  moreover have "OptimizeWithProgress w pathStr os = Some r"
    using k(1) by (simp add: OptimizeWithProgress_def Let_def p0_def r_def)
  ultimately show ?thesis by blast
qed

lemma scenario_result:
  "map_option (\<lambda>r. (Entries (Optimized r), DuplicatesRemoved (Metrics r),
                       DeadPathsRemoved (Metrics r), Length (Original r), Length (Optimized r)))
     (OptimizeWithProgress world_scenario (win ''C:|Windows;C:|Windows;C:|NotExist123'')
        options_removal_only)
   = Some ([win ''C:|Windows''], 1, 1, 36, 10)"
  by code_simp

theorem removal_only_never_longer_witness:
  "\<not> ShortenPaths options_removal_only \<and> \<not> SubstituteVars options_removal_only
   \<and> RemoveDuplicates options_removal_only \<and> RemoveDeadPaths options_removal_only
   \<and> (\<exists>r. OptimizeWithProgress world_scenario (win ''C:|Windows;C:|Windows;C:|NotExist123'')
                options_removal_only = Some r
            \<and> Length (Optimized r) \<le> Length (Original r))"
proof -
  have h: "\<not> ShortenPaths options_removal_only" "\<not> SubstituteVars options_removal_only"
    "RemoveDuplicates options_removal_only" "RemoveDeadPaths options_removal_only"
    by (simp_all add: options_removal_only_def DefaultOptions_def)
  from removal_only_never_longer[OF h(1) h(2), of world_scenario
         "win ''C:|Windows;C:|Windows;C:|NotExist123''"] h
  show ?thesis by blast
qed

section \<open>Substituting environment variables\<close>

text \<open>
  Claim C1. \<open>SubstituteEnvVars\<close> finds a variable by comparing the lower-cased path
  with the lower-cased value, and then cuts the path at the length of the value itself.
  Lower-casing can change the number of bytes, and then the cut is not where the prefix
  ends. With \<open>WINDIR\<close> set to \<open>C:\Program Files\\<close> followed by \<open>U+0130\<close> (two
  bytes, lower-cased to the one byte \<open>i\<close>), the path \<open>C:\Program Files\iX\bin\<close> becomes
  \<open>%WINDIR%\bin\<close>, although what follows the prefix in the path is \<open>X\<close> and no path
  boundary, and the result expands to another directory; on the path
  \<open>C:\Program Files\i\<close> the cut is beyond the end of the path and the call panics.
\<close>

theorem SubstituteEnvVars_cuts_at_value_length:
  "GetAllEnvVars world_dotted ''WINDIR'' = Some (win ''C:|Program Files|'' @ [CHR 0xC4, CHR 0xB0])
   \<and> SubstituteEnvVars world_dotted (win ''C:|Program Files|iX|bin'')
       = Some (''%WINDIR%'' @ win ''|bin'', True)
   \<and> ToLower (win ''C:|Program Files|'' @ [CHR 0xC4, CHR 0xB0]) = win ''c:|program files|i''
   \<and> ToLower (win ''C:|Program Files|iX|bin'') = win ''c:|program files|i'' @ win ''x|bin''
   \<and> ExpandEnvVars world_dotted (''%WINDIR%'' @ win ''|bin'')
       = Some (win ''C:|Program Files|'' @ [CHR 0xC4, CHR 0xB0] @ win ''|bin'')
   \<and> SubstituteEnvVars world_dotted (win ''C:|Program Files|i'') = None"
  by code_simp











section \<open>Expanding environment variables\<close>

lemma Index_pct: "Index ''%A%'' (CHR ''%'') = Some 0" by code_simp
lemma Index_pct2: "Index ''A%'' (CHR ''%'') = Some 1" by code_simp

lemma expandLoop_selfref:
  assumes env: "envVars ''A'' = Some ''%A%''"
  shows "expandLoop envVars getenv ''%A%'' = None"
proof -
  have "ev ''A'' = Some ''%A%'' \<longrightarrow> r \<noteq> ''%A%''"
    if "expandLoop ev ge r = Some y" for ev ge r y
  proof (rule expandLoop.raw_induct[where P = "\<lambda>ev ge r y. ev ''A'' = Some ''%A%'' \<longrightarrow> r \<noteq> ''%A%''",
              OF _ that])
    fix f :: "(string \<rightharpoonup> string) \<Rightarrow> (string \<Rightarrow> string) \<Rightarrow> string \<Rightarrow> string option"
    fix ev ge r y
    assume IH: "\<And>ev ge r y. f ev ge r = Some y \<Longrightarrow> ev ''A'' = Some ''%A%'' \<longrightarrow> r \<noteq> ''%A%''"
    assume body: "(case Index r (CHR ''%'') of None \<Rightarrow> Some r
      | Some start \<Rightarrow>
          case Index (drop (start + 1) r) (CHR ''%'') of
          None \<Rightarrow> Some r
          | Some e \<Rightarrow>
              if lookupVar ev ge (take e (drop (start + 1) r)) \<noteq> []
              then f ev ge
                    (take start r @
                     lookupVar ev ge (take e (drop (start + 1) r)) @
                     drop (e + (start + 1) + 1) r)
              else Some r) = Some y"
    show "ev ''A'' = Some ''%A%'' \<longrightarrow> r \<noteq> ''%A%''"
    proof (intro impI notI)
      assume e: "ev ''A'' = Some ''%A%''" and r: "r = ''%A%''"
      from body have "f ev ge ''%A%'' = Some y"
        unfolding r by (simp add: Index_pct Index_pct2 lookupVar_def e)
      from IH[OF this] e show False by simp
    qed
  qed
  with env show ?thesis by (cases "expandLoop envVars getenv ''%A%''") auto
qed

lemma GetAllEnvVars_world_selfref: "GetAllEnvVars world_selfref ''A'' = Some ''%A%''"
  by code_simp

lemma Contains_pct: "Contains ''%A%'' (CHR ''%'')" by code_simp

text \<open>
  Claim C6. \<open>ExpandEnvVars\<close> does not return on every input: where the variable \<open>A\<close>
  holds the text \<open>%A%\<close>, each turn of the loop on the path \<open>%A%\<close> replaces the token by
  the same text, the variable is neither undefined nor empty, and the loop never ends.
\<close>

theorem ExpandEnvVars_never_returns:
  "ExpandEnvVars world_selfref ''%A%'' = None"
  using expandLoop_selfref[of "GetAllEnvVars world_selfref", OF GetAllEnvVars_world_selfref] Contains_pct
  by (simp add: ExpandEnvVars_def)

section \<open>Normalizing twice\<close>

text \<open>
  Claim C7. \<open>NormalizePath\<close> is not idempotent. It strips trailing separators before
  it cleans, and cleaning \<open>\.\<close> gives the root \<open>\\<close>, which ends in a separator; a
  second call strips that separator, cleans the empty string and gives \<open>.\<close>. In the
  same way \<open>C:\Windows\..\<close> gives \<open>c:\\<close> and then \<open>c:.\<close>.
\<close>

theorem NormalizePath_not_idempotent:
  "NormalizePath (win ''|.'') = win ''|''
   \<and> NormalizePath (NormalizePath (win ''|.'')) = ''.''
   \<and> NormalizePath (NormalizePath (win ''|.'')) \<noteq> NormalizePath (win ''|.'')
   \<and> NormalizePath (win ''C:|Windows|..'') = win ''c:|''
   \<and> NormalizePath (NormalizePath (win ''C:|Windows|..'')) = ''c:.''"
  by code_simp

section \<open>What a restore writes\<close>

lemma CreateBackup_commands_no_write:
  "filter isSetPath (CreateBackup_commands w sfx []) = []"
  by (simp add: CreateBackup_commands_def runLogged_def isSetPath_def)

text \<open>
  Claim C2, amended. For a backup that loads, the PATH writes of \<open>RestoreBackup\<close> are,
  in this order: the user PATH, if the backup's raw user PATH is not empty; then the
  system PATH, if \<open>isAdmin\<close> holds, the backup's raw system PATH is not empty, and the
  user PATH was not attempted or was written without error. No other PATH write follows,
  so a user PATH that was written stays written when the system PATH fails. The error
  returned is that of the write that failed, with its message in front, and there is none
  when no attempted write fails.
\<close>

theorem RestoreBackup_guarded_writes:
  assumes "LoadBackup w f = Inr b"
  shows "filter isSetPath (snd (RestoreBackup w f isAdmin)) =
           (if snap_Raw (UserPath b) = [] then [] else [userWrite b])
           @ (if isAdmin \<and> snap_Raw (SystemPath b) \<noteq> []
                 \<and> (snap_Raw (UserPath b) = [] \<or> writeError w (userWrite b) = None)
              then [systemWrite b] else [])
       \<and> fst (RestoreBackup w f isAdmin) =
           (if snap_Raw (UserPath b) \<noteq> [] \<and> writeError w (userWrite b) \<noteq> None
            then map_option (wrapError ''failed to restore user PATH'') (writeError w (userWrite b))
            else if isAdmin \<and> snap_Raw (SystemPath b) \<noteq> []
            then map_option (wrapError ''failed to restore system PATH'')
                   (writeError w (systemWrite b))
            else None)"
proof -
  note defs = RestoreBackup_def SetPath_def runLogged_def userWrite_def systemWrite_def
    writeError_def BroadcastEnvChange_def Let_def assms
  note pre = CreateBackup_commands_no_write[of w "''pre-restore''"]
  have sp: "isSetPath (PS_SetPath v t)" "\<not> isSetPath PS_Broadcast" for v t
    by (simp_all add: isSetPath_def)
  show ?thesis
  proof (cases "snap_Raw (UserPath b) = []")
    case noUser: True
    show ?thesis
    proof (cases "isAdmin \<and> snap_Raw (SystemPath b) \<noteq> []")
      case True
      then show ?thesis
        using noUser pre sp by (cases "RunPowerShell w (systemWrite b)") (simp_all add: defs)
    next
      case False
      then have nf: "(isAdmin \<and> snap_Raw (SystemPath b) \<noteq> []) = False" by simp
      show ?thesis
        using noUser pre sp by (simp add: defs nf)
    qed
  next
    case user: False
    show ?thesis
    proof (cases "RunPowerShell w (userWrite b)")
      case (Inl e)
      then show ?thesis
        using user pre sp by (simp add: defs)
    next
      case (Inr out)
      show ?thesis
      proof (cases "isAdmin \<and> snap_Raw (SystemPath b) \<noteq> []")
        case True
        then show ?thesis
          using user Inr pre sp by (cases "RunPowerShell w (systemWrite b)") (simp_all add: defs)
      next
        case False
        then have nf: "(isAdmin \<and> snap_Raw (SystemPath b) \<noteq> []) = False" by simp
        show ?thesis
          using user Inr pre sp by (simp add: defs nf)
      qed
    qed
  qed
qed

theorem RestoreBackup_guarded_writes_witness:
  "LoadBackup world_restore ''full.json'' = Inr backup_full
   \<and> filter isSetPath (snd (RestoreBackup world_restore ''full.json'' True))
       = [PS_SetPath (win ''C:|bin'') ''User'', PS_SetPath (win ''C:|Windows'') ''Machine'']
   \<and> fst (RestoreBackup world_restore ''full.json'' True)
       = Some (Err ''failed to restore system PATH: access denied'')"
proof -
  have h: "LoadBackup world_restore ''full.json'' = Inr backup_full" by code_simp
  have u: "userWrite backup_full = PS_SetPath (win ''C:|bin'') ''User''" by code_simp
  have s: "systemWrite backup_full = PS_SetPath (win ''C:|Windows'') ''Machine''" by code_simp
  have eu: "writeError world_restore (PS_SetPath (win ''C:|bin'') ''User'') = None" by code_simp
  have es: "writeError world_restore (PS_SetPath (win ''C:|Windows'') ''Machine'')
            = Some (Err ''access denied'')" by code_simp
  have raw: "snap_Raw (UserPath backup_full) \<noteq> []" "snap_Raw (SystemPath backup_full) \<noteq> []"
    by code_simp+
  have wr: "wrapError ''failed to restore system PATH'' (Err ''access denied'')
            = Err ''failed to restore system PATH: access denied''" by code_simp
  from RestoreBackup_guarded_writes[OF h, of True] h raw show ?thesis
    unfolding u s eu es by (simp add: wr)
qed

text \<open>
  The claim as it is written has the user PATH written for every backup that loads. A
  backup whose raw user PATH is empty loads, and restoring it succeeds without any write.
\<close>

theorem RestoreBackup_skips_empty_user_path:
  "LoadBackup world_restore ''nouser.json'' = Inr backup_no_user
   \<and> RestoreBackup world_restore ''nouser.json'' False
       = (None, [PS_Hostname, PS_GetPathRaw ''System'', PS_GetPathRaw ''User'', PS_Broadcast])
   \<and> filter isSetPath (snd (RestoreBackup world_restore ''nouser.json'' False)) = []"
  by code_simp

end
